theory Spec2Isabelle
  imports Complex_Main
begin

section \<open>Data model\<close>

text \<open>
  The engine (\<^verbatim>\<open>chess_engine.py\<close>) and the evaluator (\<^verbatim>\<open>evaluation.py\<close>) work on a
  board object of the rules library. Squares are the numbers 0..63 (a1 = 0, b1 = 1, ...,
  h8 = 63), colours are booleans (\<^verbatim>\<open>chess.WHITE = True\<close>), a piece is a piece type with
  a colour, a move is a source square, a destination square and an optional promotion
  piece type.
\<close>

datatype piece_type = PAWN | KNIGHT | BISHOP | ROOK | QUEEN | KING

datatype piece = Piece (piece_type: piece_type) (color: bool)

type_synonym square = nat

record move =
  from_square :: square
  to_square :: square
  promotion :: "piece_type option"

text \<open>
  A position is what the board object holds apart from its undo stack: the placement
  (entry \<open>s\<close> of \<open>pieces\<close> is the piece on square \<open>s\<close>), the side to move and the
  remaining game state, which the engine never reads itself.
\<close>

record position =
  pieces :: "piece option list"
  turn :: bool
  castling_rights :: "square list"
  ep_square :: "square option"
  halfmove_clock :: nat
  fullmove_number :: nat

text \<open>
  The board object: the current position and the stack of the positions that
  \<^verbatim>\<open>board.push\<close> has left, most recent first; \<^verbatim>\<open>board.pop\<close> restores the top one.
\<close>

record board =
  cur :: position
  stack :: "position list"

text \<open>
  Python floats are modelled as exact rationals, extended by the two infinities that the
  code writes as \<^verbatim>\<open>float('-inf')\<close> and \<^verbatim>\<open>float('inf')\<close>; rounding is not modelled.
\<close>

datatype score = MInf | Fin rat | PInf

datatype error = TimeoutError | AttributeError | IndexError | KeyError

text \<open>
  The rules library is an external collaborator: its answers are parameters of the model.
  Every query reads the current position; only \<open>is_game_over\<close> (repetition rules) may
  also read the stack. \<open>apply_move\<close> is the position that \<^verbatim>\<open>board.push\<close> makes current.
\<close>

record rules =
  legal_moves :: "position \<Rightarrow> move list"
  apply_move :: "position \<Rightarrow> move \<Rightarrow> position"
  is_checkmate :: "position \<Rightarrow> bool"
  is_stalemate :: "position \<Rightarrow> bool"
  is_insufficient_material :: "position \<Rightarrow> bool"
  is_check :: "position \<Rightarrow> bool"
  is_game_over :: "board \<Rightarrow> bool"
  is_capture :: "position \<Rightarrow> move \<Rightarrow> bool"
  attacks :: "position \<Rightarrow> square \<Rightarrow> square list"
  attackers :: "position \<Rightarrow> bool \<Rightarrow> square \<Rightarrow> square list"
  is_attacked_by :: "position \<Rightarrow> bool \<Rightarrow> square \<Rightarrow> bool"
  has_castling_rights :: "position \<Rightarrow> bool \<Rightarrow> bool"

subsection \<open>Board primitives\<close>

definition SQUARES :: "square list" where
  "SQUARES = [0..<64]"

definition square_file :: "square \<Rightarrow> int" where
  "square_file s = int (s mod 8)"

definition square_rank :: "square \<Rightarrow> int" where
  "square_rank s = int (s div 8)"

definition square :: "int \<Rightarrow> int \<Rightarrow> square" where
  "square f r = nat (r * 8 + f)"

definition square_mirror :: "square \<Rightarrow> square" where
  "square_mirror s = (7 - s div 8) * 8 + s mod 8"

definition piece_at :: "position \<Rightarrow> square \<Rightarrow> piece option" where
  "piece_at p s = (if s < length (pieces p) then pieces p ! s else None)"

definition pieces_of :: "position \<Rightarrow> piece_type \<Rightarrow> bool \<Rightarrow> square list" where
  "pieces_of p t c = filter (\<lambda>s. piece_at p s = Some (Piece t c)) SQUARES"

definition king :: "position \<Rightarrow> bool \<Rightarrow> square option" where
  "king p c = (case pieces_of p KING c of [] \<Rightarrow> None | k # ks \<Rightarrow> Some (last (k # ks)))"

definition push :: "rules \<Rightarrow> board \<Rightarrow> move \<Rightarrow> board" where
  "push L b m = \<lparr>cur = apply_move L (cur b) m, stack = cur b # stack b\<rparr>"

definition pop :: "board \<Rightarrow> error + board" where
  "pop b = (case stack b of [] \<Rightarrow> Inl IndexError
            | p # ps \<Rightarrow> Inr \<lparr>cur = p, stack = ps\<rparr>)"

text \<open>
  \<^verbatim>\<open>board.fen().split(' ')[0]\<close> is the placement field of the FEN string; it determines
  and is determined by the placement, which stands for it here.
\<close>

type_synonym fingerprint = "piece option list"

definition pos_hash :: "board \<Rightarrow> fingerprint" where
  "pos_hash b = map (piece_at (cur b)) SQUARES"

text \<open>\<^verbatim>\<open>range(a, b)\<close> and the sum that a \<^verbatim>\<open>score += ...\<close> loop accumulates.\<close>

definition range_py :: "int \<Rightarrow> int \<Rightarrow> int list" where
  "range_py a b = [a..b - 1]"

definition sum_over :: "'a list \<Rightarrow> ('a \<Rightarrow> rat) \<Rightarrow> rat" where
  "sum_over xs f = sum_list (map f xs)"

definition signed :: "bool \<Rightarrow> rat \<Rightarrow> rat" where
  "signed c x = (if c then x else - x)"

section \<open>The evaluator (\<^verbatim>\<open>evaluation.py\<close>)\<close>

fun PIECE_VALUES :: "piece_type \<Rightarrow> rat" where
  "PIECE_VALUES PAWN = 100"
| "PIECE_VALUES KNIGHT = 320"
| "PIECE_VALUES BISHOP = 330"
| "PIECE_VALUES ROOK = 500"
| "PIECE_VALUES QUEEN = 900"
| "PIECE_VALUES KING = 20000"

definition PAWN_TABLE :: "rat list" where
  "PAWN_TABLE = [
    0,  0,  0,  0,  0,  0,  0,  0,
    50, 50, 50, 50, 50, 50, 50, 50,
    10, 10, 20, 30, 30, 20, 10, 10,
    5,  5, 10, 25, 25, 10,  5,  5,
    0,  0,  0, 20, 20,  0,  0,  0,
    5, -5,-10,  0,  0,-10, -5,  5,
    5, 10, 10,-20,-20, 10, 10,  5,
    0,  0,  0,  0,  0,  0,  0,  0]"

definition KNIGHT_TABLE :: "rat list" where
  "KNIGHT_TABLE = [
    -50,-40,-30,-30,-30,-30,-40,-50,
    -40,-20,  0,  0,  0,  0,-20,-40,
    -30,  0, 10, 15, 15, 10,  0,-30,
    -30,  5, 15, 20, 20, 15,  5,-30,
    -30,  0, 15, 20, 20, 15,  0,-30,
    -30,  5, 10, 15, 15, 10,  5,-30,
    -40,-20,  0,  5,  5,  0,-20,-40,
    -50,-40,-30,-30,-30,-30,-40,-50]"

definition BISHOP_TABLE :: "rat list" where
  "BISHOP_TABLE = [
    -20,-10,-10,-10,-10,-10,-10,-20,
    -10,  0,  0,  0,  0,  0,  0,-10,
    -10,  0,  5, 10, 10,  5,  0,-10,
    -10,  5,  5, 10, 10,  5,  5,-10,
    -10,  0, 10, 10, 10, 10,  0,-10,
    -10, 10, 10, 10, 10, 10, 10,-10,
    -10,  5,  0,  0,  0,  0,  5,-10,
    -20,-10,-10,-10,-10,-10,-10,-20]"

definition ROOK_TABLE :: "rat list" where
  "ROOK_TABLE = [
    0,  0,  0,  5,  5,  0,  0,  0,
    -5,  0,  0,  0,  0,  0,  0, -5,
    -5,  0,  0,  0,  0,  0,  0, -5,
    -5,  0,  0,  0,  0,  0,  0, -5,
    -5,  0,  0,  0,  0,  0,  0, -5,
    -5,  0,  0,  0,  0,  0,  0, -5,
    5, 10, 10, 10, 10, 10, 10,  5,
    0,  0,  0,  0,  0,  0,  0,  0]"

definition QUEEN_TABLE :: "rat list" where
  "QUEEN_TABLE = [
    -20,-10,-10, -5, -5,-10,-10,-20,
    -10,  0,  0,  0,  0,  0,  0,-10,
    -10,  0,  5,  5,  5,  5,  0,-10,
    -5,  0,  5,  5,  5,  5,  0, -5,
    0,  0,  5,  5,  5,  5,  0, -5,
    -10,  5,  5,  5,  5,  5,  0,-10,
    -10,  0,  5,  0,  0,  0,  0,-10,
    -20,-10,-10, -5, -5,-10,-10,-20]"

definition KING_MIDDLEGAME_TABLE :: "rat list" where
  "KING_MIDDLEGAME_TABLE = [
    -30,-40,-40,-50,-50,-40,-40,-30,
    -30,-40,-40,-50,-50,-40,-40,-30,
    -30,-40,-40,-50,-50,-40,-40,-30,
    -30,-40,-40,-50,-50,-40,-40,-30,
    -20,-30,-30,-40,-40,-30,-30,-20,
    -10,-20,-20,-20,-20,-20,-20,-10,
    20, 20,  0,  0,  0,  0, 20, 20,
    20, 30, 10,  0,  0, 10, 30, 20]"

definition KING_ENDGAME_TABLE :: "rat list" where
  "KING_ENDGAME_TABLE = [
    -50,-40,-30,-20,-20,-30,-40,-50,
    -30,-20,-10,  0,  0,-10,-20,-30,
    -30,-10, 20, 30, 30, 20,-10,-30,
    -30,-10, 30, 40, 40, 30,-10,-30,
    -30,-10, 30, 40, 40, 30,-10,-30,
    -30,-10, 20, 30, 30, 20,-10,-30,
    -30,-30,  0,  0,  0,  0,-30,-30,
    -50,-30,-30,-30,-30,-30,-30,-50]"

text \<open>
  The evaluator object. Of its attributes only the king entry of
  \<^verbatim>\<open>PIECE_POSITION_SCORES\<close> is ever reassigned, so it is the one kept as state.
  \<^verbatim>\<open>order_moves\<close> looks up an attribute \<^verbatim>\<open>_evaluate_piece_defense\<close> on the object at run
  time; \<open>piece_defense\<close> is the result of that lookup, \<open>None\<close> when the object has no such
  attribute. The class \<^verbatim>\<open>ChessEvaluator\<close> defines none.
\<close>

record evaluator =
  king_table :: "rat list"
  piece_defense :: "(rules \<Rightarrow> position \<Rightarrow> rat) option"

definition ChessEvaluator :: evaluator where
  "ChessEvaluator = \<lparr>king_table = KING_MIDDLEGAME_TABLE, piece_defense = None\<rparr>"

fun PIECE_POSITION_SCORES :: "evaluator \<Rightarrow> piece_type \<Rightarrow> rat list" where
  "PIECE_POSITION_SCORES ev PAWN = PAWN_TABLE"
| "PIECE_POSITION_SCORES ev KNIGHT = KNIGHT_TABLE"
| "PIECE_POSITION_SCORES ev BISHOP = BISHOP_TABLE"
| "PIECE_POSITION_SCORES ev ROOK = ROOK_TABLE"
| "PIECE_POSITION_SCORES ev QUEEN = QUEEN_TABLE"
| "PIECE_POSITION_SCORES ev KING = king_table ev"

text \<open>The sum that \<^verbatim>\<open>_is_endgame\<close> forms for each side: the material without the king.\<close>

definition material :: "position \<Rightarrow> bool \<Rightarrow> rat" where
  "material p c = sum_over [PAWN, KNIGHT, BISHOP, ROOK, QUEEN]
     (\<lambda>t. of_nat (length (pieces_of p t c)) * PIECE_VALUES t)"

definition is_endgame :: "position \<Rightarrow> bool" where
  "is_endgame p = (material p True < 1300 \<or> material p False < 1300)"

definition get_position_value :: "evaluator \<Rightarrow> piece \<Rightarrow> square \<Rightarrow> rat" where
  "get_position_value ev pc sq =
     PIECE_POSITION_SCORES ev (piece_type pc) ! (if color pc then sq else square_mirror sq)"

definition evaluate_material_and_position :: "rules \<Rightarrow> evaluator \<Rightarrow> position \<Rightarrow> rat" where
  "evaluate_material_and_position L ev p =
     sum_over SQUARES (\<lambda>sq. case piece_at p sq of None \<Rightarrow> 0
        | Some pc \<Rightarrow>
            signed (color pc)
              (PIECE_VALUES (piece_type pc) + get_position_value ev pc sq
               + (if piece_type pc \<noteq> PAWN \<and> piece_type pc \<noteq> KING
                  then of_nat (length (attacks L p sq)) * 5 else 0)))
     + (if 2 \<le> length (pieces_of p BISHOP True) then 50 else 0)
     - (if 2 \<le> length (pieces_of p BISHOP False) then 50 else 0)"

definition is_pawn_of :: "position \<Rightarrow> bool \<Rightarrow> square \<Rightarrow> bool" where
  "is_pawn_of p c s = (piece_at p s = Some (Piece PAWN c))"

text \<open>\<^verbatim>\<open>range(max(0, x - 1), min(8, x + 2))\<close>: the files, or the ranks, within one of \<open>x\<close>.\<close>

definition around :: "int \<Rightarrow> int list" where
  "around f = range_py (max 0 (f - 1)) (min 8 (f + 2))"

definition evaluate_pawn_shield :: "position \<Rightarrow> square \<Rightarrow> bool \<Rightarrow> rat" where
  "evaluate_pawn_shield p king_square c =
     (let king_file = square_file king_square; king_rank = square_rank king_square;
          shield_ranks = (if c then [king_rank + 1, king_rank + 2]
                          else [king_rank - 1, king_rank - 2])
      in sum_over (around king_file) (\<lambda>file. sum_over shield_ranks (\<lambda>rank.
           if 0 \<le> rank \<and> rank < 8 \<and> is_pawn_of p c (square file rank)
           then 10 + (if file = king_file then 5 else 0) else 0)))"

definition king_zone :: "square \<Rightarrow> square list" where
  "king_zone king_square =
     concat (map (\<lambda>f. map (\<lambda>r. square f r) (around (square_rank king_square)))
                 (around (square_file king_square)))"

definition evaluate_king_attackers :: "rules \<Rightarrow> position \<Rightarrow> square \<Rightarrow> bool \<Rightarrow> rat" where
  "evaluate_king_attackers L p king_square king_color =
     (let attacking_color = (\<not> king_color)
      in sum_over SQUARES (\<lambda>sq. case piece_at p sq of None \<Rightarrow> 0
           | Some pc \<Rightarrow>
               if color pc = attacking_color
                  \<and> list_ex (is_attacked_by L p attacking_color) (king_zone king_square)
               then PIECE_VALUES (piece_type pc) * (1 / 10) else 0))"

definition evaluate_king_open_files :: "position \<Rightarrow> square \<Rightarrow> bool \<Rightarrow> rat" where
  "evaluate_king_open_files p king_square c =
     sum_over (around (square_file king_square)) (\<lambda>file.
       let has_friendly_pawn = list_ex (\<lambda>rank. is_pawn_of p c (square file rank)) (range_py 0 8);
           has_enemy_pawn = list_ex (\<lambda>rank. is_pawn_of p (\<not> c) (square file rank)) (range_py 0 8)
       in if \<not> has_friendly_pawn then 20 + (if \<not> has_enemy_pawn then 10 else 0) else 0)"

definition evaluate_king_safety :: "rules \<Rightarrow> position \<Rightarrow> rat" where
  "evaluate_king_safety L p =
     sum_over [True, False] (\<lambda>c. case king p c of None \<Rightarrow> 0
        | Some king_square \<Rightarrow>
            signed c (evaluate_pawn_shield p king_square c
                      - evaluate_king_attackers L p king_square c
                      - evaluate_king_open_files p king_square c))"

fun mobility_weight :: "piece option \<Rightarrow> rat" where
  "mobility_weight None = 0"
| "mobility_weight (Some pc) =
     (if piece_type pc = PAWN then 1
      else if piece_type pc = KNIGHT \<or> piece_type pc = BISHOP then 2
      else if piece_type pc = ROOK then 3
      else if piece_type pc = QUEEN then 4 else 0)"

text \<open>
  \<^verbatim>\<open>_evaluate_mobility\<close> assigns \<^verbatim>\<open>board.turn\<close> for each colour in turn and restores the
  original value at the end; the position is threaded through to show it.
\<close>

definition mobility_step :: "rules \<Rightarrow> bool \<Rightarrow> rat \<times> position \<Rightarrow> rat \<times> position" where
  "mobility_step L c sp =
     (let p = (snd sp)\<lparr>turn := c\<rparr>;
          mobility = sum_over (legal_moves L p) (\<lambda>m. mobility_weight (piece_at p (from_square m)))
      in (fst sp + signed c mobility, p))"

definition evaluate_mobility :: "rules \<Rightarrow> position \<Rightarrow> rat \<times> position" where
  "evaluate_mobility L p =
     (let original_turn = turn p;
          sp = fold (mobility_step L) [True, False] (0, p)
      in (fst sp, (snd sp)\<lparr>turn := original_turn\<rparr>))"

definition CENTER_SQUARES :: "square list" where
  "CENTER_SQUARES = [28, 36, 27, 35]"

definition EXTENDED_CENTER :: "square list" where
  "EXTENDED_CENTER = [18, 19, 20, 21, 26, 27, 28, 29, 34, 35, 36, 37, 42, 43, 44, 45]"

definition center_term :: "rules \<Rightarrow> position \<Rightarrow> rat \<Rightarrow> rat \<Rightarrow> rat \<Rightarrow> square \<Rightarrow> rat" where
  "center_term L p w pawn_bonus other_bonus sq =
     (of_nat (length (attackers L p True sq)) - of_nat (length (attackers L p False sq))) * w
     + (case piece_at p sq of None \<Rightarrow> 0
        | Some pc \<Rightarrow> signed (color pc) (if piece_type pc = PAWN then pawn_bonus else other_bonus))"

definition evaluate_center_control :: "rules \<Rightarrow> position \<Rightarrow> rat" where
  "evaluate_center_control L p =
     sum_over CENTER_SQUARES (center_term L p 10 15 10)
     + sum_over EXTENDED_CENTER (center_term L p 5 7 5)"

definition evaluate_piece_activity :: "rules \<Rightarrow> position \<Rightarrow> rat" where
  "evaluate_piece_activity L p =
     sum_over SQUARES (\<lambda>sq. case piece_at p sq of None \<Rightarrow> 0
        | Some pc \<Rightarrow>
            (if \<not> is_endgame p \<and> (piece_type pc = KNIGHT \<or> piece_type pc = BISHOP)
             then (if color pc then (if 1 < square_rank sq then 10 else 0)
                   else (if square_rank sq < 6 then - 10 else 0))
             else 0)
            + signed (color pc)
                (of_nat (length (attacks L p sq)) * 2
                 + sum_over CENTER_SQUARES (\<lambda>center_square.
                     if is_attacked_by L p (color pc) center_square then 5 else 0)))"

definition is_attacking_king_zone :: "rules \<Rightarrow> position \<Rightarrow> piece \<Rightarrow> square \<Rightarrow> bool" where
  "is_attacking_king_zone L p pc king_square =
     list_ex (is_attacked_by L p (color pc)) (king_zone king_square)"

fun get_attack_weight :: "piece_type \<Rightarrow> rat" where
  "get_attack_weight PAWN = 1"
| "get_attack_weight KNIGHT = 3"
| "get_attack_weight BISHOP = 3"
| "get_attack_weight ROOK = 5"
| "get_attack_weight QUEEN = 9"
| "get_attack_weight KING = 0"

definition king_zone_attackers :: "rules \<Rightarrow> position \<Rightarrow> bool \<Rightarrow> square \<Rightarrow> piece list" where
  "king_zone_attackers L p c enemy_king_square =
     concat (map (\<lambda>sq. case piece_at p sq of None \<Rightarrow> []
        | Some pc \<Rightarrow> if color pc = c \<and> is_attacking_king_zone L p pc enemy_king_square
                     then [pc] else []) SQUARES)"

definition evaluate_king_attack :: "rules \<Rightarrow> position \<Rightarrow> rat" where
  "evaluate_king_attack L p =
     sum_over [True, False] (\<lambda>c. case king p (\<not> c) of None \<Rightarrow> 0
        | Some enemy_king_square \<Rightarrow>
            (let participants = king_zone_attackers L p c enemy_king_square;
                 attacker_count = length participants;
                 attack_value = sum_over participants (\<lambda>pc. get_attack_weight (piece_type pc))
             in signed c (if 1 < attacker_count
                          then attack_value * (of_nat attacker_count * (3 / 2))
                          else attack_value)))"

definition evaluate_bishop_pair :: "position \<Rightarrow> rat" where
  "evaluate_bishop_pair p =
     (if 2 \<le> length (pieces_of p BISHOP True) then 50 else 0)
     - (if 2 \<le> length (pieces_of p BISHOP False) then 50 else 0)"

definition is_open_file :: "position \<Rightarrow> int \<Rightarrow> bool" where
  "is_open_file p file =
     (\<not> list_ex (\<lambda>rank. case piece_at p (square file rank) of None \<Rightarrow> False
                         | Some pc \<Rightarrow> piece_type pc = PAWN) (range_py 0 8))"

definition evaluate_rook_coordination :: "position \<Rightarrow> rat" where
  "evaluate_rook_coordination p =
     sum_over [True, False] (\<lambda>c.
       let rook_squares = pieces_of p ROOK c
       in if 2 \<le> length rook_squares
          then (if list_ex (\<lambda>r1. list_ex (\<lambda>r2. r1 \<noteq> r2 \<and> square_rank r1 = square_rank r2)
                                    rook_squares) rook_squares
                then signed c 20 else 0)
               + sum_over rook_squares (\<lambda>rook_square.
                   if is_open_file p (square_file rook_square) then signed c 15 else 0)
          else 0)"

definition evaluate_piece_protection :: "rules \<Rightarrow> position \<Rightarrow> rat" where
  "evaluate_piece_protection L p =
     sum_over SQUARES (\<lambda>sq. case piece_at p sq of None \<Rightarrow> 0
        | Some pc \<Rightarrow>
            (let defenders = length (attackers L p (color pc) sq)
             in if 0 < defenders then signed (color pc) (of_nat defenders * 5) else 0))"

definition evaluate_piece_coordination :: "rules \<Rightarrow> position \<Rightarrow> rat" where
  "evaluate_piece_coordination L p =
     evaluate_bishop_pair p + evaluate_rook_coordination p + evaluate_piece_protection L p"

definition evaluate_king_centralization :: "position \<Rightarrow> rat" where
  "evaluate_king_centralization p =
     sum_over [True, False] (\<lambda>c. case king p c of None \<Rightarrow> 0
        | Some king_square \<Rightarrow>
            (let file = square_file king_square; rank = square_rank king_square;
                 file_distance = min (abs (file - 3)) (abs (file - 4));
                 rank_distance = min (abs (rank - 3)) (abs (rank - 4))
             in signed c (of_int (7 - (file_distance + rank_distance)))))"

definition is_passed_pawn :: "position \<Rightarrow> square \<Rightarrow> bool \<Rightarrow> bool" where
  "is_passed_pawn p sq c =
     (let file = square_file sq; rank = square_rank sq;
          ranks_ahead = (if c then range_py (rank + 1) 8 else rev (range_py 0 rank))
      in \<not> list_ex (\<lambda>r. list_ex (\<lambda>f. is_pawn_of p (\<not> c) (square f r)) (around file))
                    ranks_ahead)"

definition evaluate_passed_pawns :: "position \<Rightarrow> rat" where
  "evaluate_passed_pawns p =
     sum_over SQUARES (\<lambda>sq. case piece_at p sq of None \<Rightarrow> 0
        | Some pc \<Rightarrow>
            if piece_type pc = PAWN \<and> is_passed_pawn p sq (color pc)
            then (let rank = square_rank sq
                  in signed (color pc) (50 + of_int (if color pc then rank else 7 - rank) * 10))
            else 0)"

definition evaluate_pawn_chains :: "position \<Rightarrow> rat" where
  "evaluate_pawn_chains p =
     sum_over SQUARES (\<lambda>sq. case piece_at p sq of None \<Rightarrow> 0
        | Some pc \<Rightarrow>
            if piece_type pc = PAWN
            then (let file = square_file sq; rank = square_rank sq;
                      protect_rank = (if color pc then rank - 1 else rank + 1)
                  in sum_over [file - 1, file + 1] (\<lambda>f.
                       if 0 \<le> f \<and> f < 8 \<and> 0 \<le> protect_rank \<and> protect_rank < 8
                          \<and> is_pawn_of p (color pc) (square f protect_rank)
                       then signed (color pc) 10 else 0))
            else 0)"

text \<open>
  In \<^verbatim>\<open>score -= 20 if piece.color else 20\<close> the conditional expression is the whole
  right-hand side, so 20 is subtracted for either colour.
\<close>

definition evaluate_isolated_pawns :: "position \<Rightarrow> rat" where
  "evaluate_isolated_pawns p =
     sum_over SQUARES (\<lambda>sq. case piece_at p sq of None \<Rightarrow> 0
        | Some pc \<Rightarrow>
            if piece_type pc = PAWN
            then (let file = square_file sq;
                      isolated = (\<not> list_ex (\<lambda>f. 0 \<le> f \<and> f < 8
                                      \<and> list_ex (\<lambda>r. is_pawn_of p (color pc) (square f r)) (range_py 0 8))
                                    [file - 1, file + 1])
                  in if isolated then - (if color pc then 20 else 20) else 0)
            else 0)"

definition evaluate_doubled_pawns :: "position \<Rightarrow> rat" where
  "evaluate_doubled_pawns p =
     sum_over (range_py 0 8) (\<lambda>file.
       let white_pawns = length (filter (\<lambda>rank. is_pawn_of p True (square file rank)) (range_py 0 8));
           black_pawns = length (filter (\<lambda>rank. is_pawn_of p False (square file rank)) (range_py 0 8))
       in (if 1 < white_pawns then - (of_nat (white_pawns - 1) * 15) else 0)
          + (if 1 < black_pawns then of_nat (black_pawns - 1) * 15 else 0))"

definition evaluate_pawn_structure :: "position \<Rightarrow> rat" where
  "evaluate_pawn_structure p =
     evaluate_pawn_chains p + evaluate_isolated_pawns p + evaluate_doubled_pawns p"

text \<open>
  \<^verbatim>\<open>evaluate\<close>: the result, the evaluator object and the board as the call leaves them.
\<close>

definition evaluate :: "rules \<Rightarrow> evaluator \<Rightarrow> board \<Rightarrow> score \<times> evaluator \<times> board" where
  "evaluate L ev b =
     (if is_checkmate L (cur b) then ((if turn (cur b) then MInf else PInf), ev, b)
      else if is_stalemate L (cur b) \<or> is_insufficient_material L (cur b) then (Fin 0, ev, b)
      else
        (let endgame = is_endgame (cur b);
             ev' = ev\<lparr>king_table := (if endgame then KING_ENDGAME_TABLE
                                      else KING_MIDDLEGAME_TABLE)\<rparr>;
             s0 = evaluate_material_and_position L ev' (cur b);
             mob = evaluate_mobility L (cur b);
             b' = b\<lparr>cur := snd mob\<rparr>;
             s1 = (if endgame
                   then s0 + evaluate_king_centralization (cur b) * 50
                           + evaluate_passed_pawns (cur b) * 40
                           + fst mob * (3 / 10)
                   else s0 + evaluate_king_safety L (cur b) * 60
                           + fst mob * (2 / 10)
                           + evaluate_pawn_structure (cur b') * 30
                           + evaluate_center_control L (cur b') * 40
                           + evaluate_piece_activity L (cur b') * 25
                           + evaluate_king_attack L (cur b') * 50
                           + evaluate_piece_coordination L (cur b') * 15);
             s2 = s1 + (if has_castling_rights L (cur b') True then 30 else 0)
                     - (if has_castling_rights L (cur b') False then 30 else 0)
         in (Fin (if turn (cur b') then s2 else - s2), ev', b')))"

section \<open>The engine (\<^verbatim>\<open>chess_engine.py\<close>)\<close>

subsection \<open>Scores\<close>

fun score_less :: "score \<Rightarrow> score \<Rightarrow> bool" where
  "score_less (Fin a) (Fin b) = (a < b)"
| "score_less x MInf = False"
| "score_less MInf y = True"
| "score_less PInf y = False"
| "score_less x PInf = True"

definition score_le :: "score \<Rightarrow> score \<Rightarrow> bool" where
  "score_le x y = (\<not> score_less y x)"

definition score_max :: "score \<Rightarrow> score \<Rightarrow> score" where
  "score_max x y = (if score_less x y then y else x)"

definition score_min :: "score \<Rightarrow> score \<Rightarrow> score" where
  "score_min x y = (if score_less y x then y else x)"

fun score_abs :: "score \<Rightarrow> score" where
  "score_abs MInf = PInf"
| "score_abs (Fin a) = Fin (abs a)"
| "score_abs PInf = PInf"

fun score_neg :: "score \<Rightarrow> score" where
  "score_neg MInf = PInf"
| "score_neg (Fin a) = Fin (- a)"
| "score_neg PInf = MInf"

text \<open>Multiplication by a positive finite factor, as in \<^verbatim>\<open>eval_score *= 0.8\<close>.\<close>

fun score_scale :: "rat \<Rightarrow> score \<Rightarrow> score" where
  "score_scale k MInf = MInf"
| "score_scale k (Fin a) = Fin (a * k)"
| "score_scale k PInf = PInf"

subsection \<open>The engine object\<close>

text \<open>
  The attributes of \<^verbatim>\<open>ChessEngine\<close>. The wall clock is outside the program: \<open>clk n\<close> is
  the value that the \<open>n\<close>-th call of \<^verbatim>\<open>time.time()\<close> returns, and \<open>reads\<close> counts the
  calls made so far.
\<close>

record engine =
  depth :: int
  time_limit :: rat
  evaluator :: evaluator
  start_time :: rat
  position_history :: "fingerprint \<rightharpoonup> int"
  reads :: nat

definition ChessEngine :: "int \<Rightarrow> rat \<Rightarrow> engine" where
  "ChessEngine d t = \<lparr>depth = d, time_limit = t, evaluator = ChessEvaluator, start_time = 0,
                      position_history = Map.empty, reads = 0\<rparr>"

definition time :: "(nat \<Rightarrow> rat) \<Rightarrow> engine \<Rightarrow> rat \<times> engine" where
  "time clk E = (clk (reads E), E\<lparr>reads := reads E + 1\<rparr>)"

definition is_time_up :: "(nat \<Rightarrow> rat) \<Rightarrow> engine \<Rightarrow> bool \<times> engine" where
  "is_time_up clk E = (case time clk E of (now, E') \<Rightarrow> (time_limit E < now - start_time E, E'))"

subsection \<open>\<^verbatim>\<open>order_moves\<close>\<close>

type_synonym 'a outcome = "(error + 'a) \<times> engine \<times> board"

definition pop_with :: "'a \<Rightarrow> engine \<Rightarrow> board \<Rightarrow> 'a outcome" where
  "pop_with x E b = (case pop b of Inl e \<Rightarrow> (Inl e, E, b) | Inr b' \<Rightarrow> (Inr x, E, b'))"

definition run_evaluate :: "rules \<Rightarrow> engine \<Rightarrow> board \<Rightarrow> score \<times> engine \<times> board" where
  "run_evaluate L E b =
     (case evaluate L (evaluator E) b of (s, ev', b') \<Rightarrow> (s, E\<lparr>evaluator := ev'\<rparr>, b'))"

text \<open>Lines 34 to 38: the replies of the opponent to a checking move, one after the other.\<close>

fun check_replies :: "rules \<Rightarrow> piece option \<Rightarrow> engine \<Rightarrow> board \<Rightarrow> rat \<Rightarrow> move list
                      \<Rightarrow> rat outcome" where
  "check_replies L moving_piece E b score [] = (Inr score, E, b)"
| "check_replies L moving_piece E b score (opponent_move # rest) =
     (let b1 = push L b opponent_move;
          score' = (if is_capture L (cur b1) opponent_move
                       \<and> piece_at (cur b1) (to_square opponent_move) = moving_piece
                    then score - 100 else score)
      in case pop b1 of Inl e \<Rightarrow> (Inl e, E, b1)
         | Inr b2 \<Rightarrow> check_replies L moving_piece E b2 score' rest)"

text \<open>Lines 22 to 39: the score after the checkmate and check tests.\<close>

definition check_score :: "rules \<Rightarrow> engine \<Rightarrow> board \<Rightarrow> move \<Rightarrow> rat outcome" where
  "check_score L E b m =
     (let moving_piece = piece_at (cur b) (from_square m);
          b1 = push L b m
      in if is_checkmate L (cur b1) then pop_with 10000 E b1
         else if is_check L (cur b1)
         then (case run_evaluate L E b1 of (s, E2, b2) \<Rightarrow>
                 (case check_replies L moving_piece E2 b2
                         (30 + (if score_less (Fin 500) s then 50 else 0))
                         (legal_moves L (cur b2)) of
                    (Inl e, E3, b3) \<Rightarrow> (Inl e, E3, b3)
                  | (Inr score, E3, b3) \<Rightarrow> pop_with score E3 b3))
         else pop_with 0 E b1)"

text \<open>
  Lines 41 to 44. A destination square that holds a piece while the source square holds
  none makes \<^verbatim>\<open>moving_piece.piece_type\<close> fail.
\<close>

definition capture_score :: "position \<Rightarrow> move \<Rightarrow> error + rat" where
  "capture_score p m =
     (case piece_at p (to_square m) of None \<Rightarrow> Inr 0
      | Some captured_piece \<Rightarrow>
          (case piece_at p (from_square m) of None \<Rightarrow> Inl AttributeError
           | Some moving_piece \<Rightarrow>
               Inr (10 * PIECE_VALUES (piece_type captured_piece)
                    - PIECE_VALUES (piece_type moving_piece))))"

definition promotion_score :: "move \<Rightarrow> rat" where
  "promotion_score m = (if promotion m \<noteq> None then 800 else 0)"

definition center_score :: "move \<Rightarrow> rat" where
  "center_score m =
     (let to_rank = square_rank (to_square m); to_file = square_file (to_square m);
          center_distance = abs (7 / 2 - of_int to_file) + abs (7 / 2 - of_int to_rank)
      in - (center_distance * 10))"

text \<open>Lines 56 to 61; \<^verbatim>\<open>and\<close> evaluates the position only for a key of the history.\<close>

definition repetition_score :: "rules \<Rightarrow> engine \<Rightarrow> board \<Rightarrow> move \<Rightarrow> rat outcome" where
  "repetition_score L E b m =
     (let b1 = push L b m
      in if position_history E (pos_hash b1) \<noteq> None
         then (case run_evaluate L E b1 of (s, E2, b2) \<Rightarrow>
                 pop_with (if score_less (Fin 500) s then - 400 else 0) E2 b2)
         else pop_with 0 E b1)"

text \<open>Lines 63 to 67: the attribute lookup fails before anything is called or undone.\<close>

definition defense_score :: "rules \<Rightarrow> engine \<Rightarrow> board \<Rightarrow> move \<Rightarrow> rat outcome" where
  "defense_score L E b m =
     (let b1 = push L b m
      in case piece_defense (evaluator E) of None \<Rightarrow> (Inl AttributeError, E, b1)
         | Some f \<Rightarrow> pop_with (f L (cur b1)) E b1)"

text \<open>The body of the loop of \<^verbatim>\<open>order_moves\<close>: the score of one move.\<close>

definition move_score :: "rules \<Rightarrow> engine \<Rightarrow> board \<Rightarrow> move \<Rightarrow> rat outcome" where
  "move_score L E b m =
     (case check_score L E b m of (Inl e, E1, b1) \<Rightarrow> (Inl e, E1, b1)
      | (Inr s1, E1, b1) \<Rightarrow>
     (case capture_score (cur b) m of Inl e \<Rightarrow> (Inl e, E1, b1)
      | Inr s2 \<Rightarrow>
     (case repetition_score L E1 b1 m of (Inl e, E2, b2) \<Rightarrow> (Inl e, E2, b2)
      | (Inr s3, E2, b2) \<Rightarrow>
     (case defense_score L E2 b2 m of (Inl e, E3, b3) \<Rightarrow> (Inl e, E3, b3)
      | (Inr s4, E3, b3) \<Rightarrow>
          (Inr (s1 + s2 + promotion_score m + center_score m + s3 + s4), E3, b3)))))"

fun move_scores :: "rules \<Rightarrow> engine \<Rightarrow> board \<Rightarrow> move list \<Rightarrow> (move \<times> rat) list outcome" where
  "move_scores L E b [] = (Inr [], E, b)"
| "move_scores L E b (m # ms) =
     (case move_score L E b m of (Inl e, E1, b1) \<Rightarrow> (Inl e, E1, b1)
      | (Inr s, E1, b1) \<Rightarrow>
          (case move_scores L E1 b1 ms of (Inl e, E2, b2) \<Rightarrow> (Inl e, E2, b2)
           | (Inr rest, E2, b2) \<Rightarrow> (Inr ((m, s) # rest), E2, b2)))"

text \<open>The stable sort by descending score is a stable sort by ascending negated score.\<close>

definition order_moves :: "rules \<Rightarrow> engine \<Rightarrow> board \<Rightarrow> move list \<Rightarrow> move list outcome" where
  "order_moves L E b moves =
     (case move_scores L E b moves of (Inl e, E1, b1) \<Rightarrow> (Inl e, E1, b1)
      | (Inr scored, E1, b1) \<Rightarrow> (Inr (map fst (sort_key (\<lambda>x. - snd x) scored)), E1, b1))"

subsection \<open>\<^verbatim>\<open>alpha_beta\<close>\<close>

text \<open>Lines 85 to 90: the value of a node at depth 0 or with the game over.\<close>

definition terminal_node :: "rules \<Rightarrow> engine \<Rightarrow> board \<Rightarrow> (score \<times> move option) outcome" where
  "terminal_node L E b =
     (case run_evaluate L E b of (eval_score, E1, b1) \<Rightarrow>
        (Inr (if position_history E1 (pos_hash b1) \<noteq> None
                 \<and> score_less (Fin 500) (score_abs eval_score)
              then score_scale (8 / 10) eval_score else eval_score, None), E1, b1))"

text \<open>Lines 99 to 101 (and 122 to 124): apply the move and count the position reached.\<close>

definition enter_child :: "rules \<Rightarrow> engine \<Rightarrow> board \<Rightarrow> move \<Rightarrow> engine \<times> board" where
  "enter_child L E b m =
     (let b1 = push L b m; h = pos_hash b1
      in (E\<lparr>position_history := (position_history E)
               (h \<mapsto> (case position_history E h of None \<Rightarrow> 0 | Some n \<Rightarrow> n) + 1)\<rparr>, b1))"

text \<open>Lines 105 to 107: the handler of \<^verbatim>\<open>TimeoutError\<close> undoes the move and re-raises.\<close>

definition abort_child :: "engine \<Rightarrow> board \<Rightarrow> 'a outcome" where
  "abort_child E b = (case pop b of Inl e \<Rightarrow> (Inl e, E, b) | Inr b' \<Rightarrow> (Inl TimeoutError, E, b'))"

text \<open>Lines 109 and 110: uncount the position and undo the move.\<close>

definition leave_child :: "engine \<Rightarrow> board \<Rightarrow> fingerprint \<Rightarrow> unit outcome" where
  "leave_child E b h =
     (case position_history E h of None \<Rightarrow> (Inl KeyError, E, b)
      | Some n \<Rightarrow> pop_with () (E\<lparr>position_history := (position_history E)(h \<mapsto> n - 1)\<rparr>) b)"

text \<open>
  The search. The depth is a natural number: \<^verbatim>\<open>iterative_deepening\<close> starts every
  search at a depth of at least 1 and a frame recurses only when its depth is not 0.
  \<open>max_loop\<close> and \<open>min_loop\<close> are the two \<^verbatim>\<open>for\<close> loops, with the depth of the children.
\<close>

function alpha_beta :: "rules \<Rightarrow> (nat \<Rightarrow> rat) \<Rightarrow> nat \<Rightarrow> engine \<Rightarrow> board \<Rightarrow> score \<Rightarrow> score
                        \<Rightarrow> bool \<Rightarrow> (score \<times> move option) outcome"
  and max_loop :: "rules \<Rightarrow> (nat \<Rightarrow> rat) \<Rightarrow> nat \<Rightarrow> move list \<Rightarrow> engine \<Rightarrow> board
                   \<Rightarrow> score \<Rightarrow> score \<Rightarrow> score \<Rightarrow> move option \<Rightarrow> (score \<times> move option) outcome"
  and min_loop :: "rules \<Rightarrow> (nat \<Rightarrow> rat) \<Rightarrow> nat \<Rightarrow> move list \<Rightarrow> engine \<Rightarrow> board
                   \<Rightarrow> score \<Rightarrow> score \<Rightarrow> score \<Rightarrow> move option \<Rightarrow> (score \<times> move option) outcome"
where
  "alpha_beta L clk d E b alpha beta maximizing_player =
     (case is_time_up clk E of (up, E0) \<Rightarrow>
        if up then (Inl TimeoutError, E0, b)
        else if d = 0 \<or> is_game_over L b then terminal_node L E0 b
        else (case order_moves L E0 b (legal_moves L (cur b)) of
                (Inl e, E1, b1) \<Rightarrow> (Inl e, E1, b1)
              | (Inr ordered_moves, E1, b1) \<Rightarrow>
                  if maximizing_player
                  then max_loop L clk (d - 1) ordered_moves E1 b1 alpha beta MInf None
                  else min_loop L clk (d - 1) ordered_moves E1 b1 alpha beta PInf None))"
| "max_loop L clk d [] E b alpha beta max_eval best_move = (Inr (max_eval, best_move), E, b)"
| "max_loop L clk d (m # ms) E b alpha beta max_eval best_move =
     (case enter_child L E b m of (E1, b1) \<Rightarrow>
     (case alpha_beta L clk d E1 b1 alpha beta False of
        (Inl e, E2, b2) \<Rightarrow> if e = TimeoutError then abort_child E2 b2 else (Inl e, E2, b2)
      | (Inr (eval, mv), E2, b2) \<Rightarrow>
          (case leave_child E2 b2 (pos_hash b1) of
             (Inl e, E3, b3) \<Rightarrow> (Inl e, E3, b3)
           | (Inr u, E3, b3) \<Rightarrow>
               if score_le beta (score_max alpha eval)
               then (Inr (if score_less max_eval eval then (eval, Some m)
                          else (max_eval, best_move)), E3, b3)
               else max_loop L clk d ms E3 b3 (score_max alpha eval) beta
                      (if score_less max_eval eval then eval else max_eval)
                      (if score_less max_eval eval then Some m else best_move))))"
| "min_loop L clk d [] E b alpha beta min_eval best_move = (Inr (min_eval, best_move), E, b)"
| "min_loop L clk d (m # ms) E b alpha beta min_eval best_move =
     (case enter_child L E b m of (E1, b1) \<Rightarrow>
     (case alpha_beta L clk d E1 b1 alpha beta True of
        (Inl e, E2, b2) \<Rightarrow> if e = TimeoutError then abort_child E2 b2 else (Inl e, E2, b2)
      | (Inr (eval, mv), E2, b2) \<Rightarrow>
          (case leave_child E2 b2 (pos_hash b1) of
             (Inl e, E3, b3) \<Rightarrow> (Inl e, E3, b3)
           | (Inr u, E3, b3) \<Rightarrow>
               if score_le (score_min beta eval) alpha
               then (Inr (if score_less eval min_eval then (eval, Some m)
                          else (min_eval, best_move)), E3, b3)
               else min_loop L clk d ms E3 b3 alpha (score_min beta eval)
                      (if score_less eval min_eval then eval else min_eval)
                      (if score_less eval min_eval then Some m else best_move))))"
  by pat_completeness auto
termination
  by (relation "measures [
        (\<lambda>x. case x of Inl (L, clk, d, r) \<Rightarrow> 2 * d
                      | Inr (Inl (L, clk, d, r)) \<Rightarrow> 2 * d + 1
                      | Inr (Inr (L, clk, d, r)) \<Rightarrow> 2 * d + 1),
        (\<lambda>x. case x of Inl (L, clk, d, r) \<Rightarrow> 0
                      | Inr (Inl (L, clk, d, ms, r)) \<Rightarrow> length ms
                      | Inr (Inr (L, clk, d, ms, r)) \<Rightarrow> length ms)]")
     auto

subsection \<open>\<^verbatim>\<open>iterative_deepening\<close> and \<^verbatim>\<open>get_best_move\<close>\<close>

text \<open>
  The \<^verbatim>\<open>while\<close> loop of \<^verbatim>\<open>iterative_deepening\<close>. Nothing assigns \<^verbatim>\<open>self.depth\<close> after the
  constructor, so the ceiling is passed as \<open>dmax\<close>. A \<^verbatim>\<open>TimeoutError\<close> ends the loop
  with the best move so far, any other error leaves the function. A legal move is never
  the null move, so \<^verbatim>\<open>if move\<close> tests for a move being there.
\<close>

function deepening_loop :: "rules \<Rightarrow> (nat \<Rightarrow> rat) \<Rightarrow> int \<Rightarrow> int \<Rightarrow> engine \<Rightarrow> board
                            \<Rightarrow> move option \<Rightarrow> move option outcome" where
  "deepening_loop L clk dmax current_depth E b best_move =
     (if current_depth \<le> dmax
      then (case is_time_up clk E of (up, E0) \<Rightarrow>
              if up then (Inr best_move, E0, b)
              else (case alpha_beta L clk (nat current_depth) E0 b MInf PInf True of
                      (Inl e, E1, b1) \<Rightarrow>
                        if e = TimeoutError then (Inr best_move, E1, b1) else (Inl e, E1, b1)
                    | (Inr (s, mv), E1, b1) \<Rightarrow>
                        deepening_loop L clk dmax (current_depth + 1) E1 b1
                          (case mv of None \<Rightarrow> best_move | Some m \<Rightarrow> Some m)))
      else (Inr best_move, E, b))"
  by pat_completeness auto
termination
  by (relation "measure (\<lambda>(L, clk, dmax, current_depth, r). nat (dmax + 1 - current_depth))")
     auto

definition iterative_deepening :: "rules \<Rightarrow> (nat \<Rightarrow> rat) \<Rightarrow> engine \<Rightarrow> board
                                   \<Rightarrow> move option outcome" where
  "iterative_deepening L clk E b = deepening_loop L clk (depth E) 1 E b None"

text \<open>
  \<^verbatim>\<open>get_best_move\<close> reads the clock, empties the history, searches, reads the clock again
  for the message it prints and returns the move.
\<close>

definition get_best_move :: "rules \<Rightarrow> (nat \<Rightarrow> rat) \<Rightarrow> engine \<Rightarrow> board \<Rightarrow> move option outcome" where
  "get_best_move L clk E b =
     (case time clk E of (now, E0) \<Rightarrow>
        (case iterative_deepening L clk
                (E0\<lparr>start_time := now, position_history := Map.empty\<rparr>) b of
           (Inl e, E1, b1) \<Rightarrow> (Inl e, E1, b1)
         | (Inr best_move, E1, b1) \<Rightarrow>
             (case time clk E1 of (end_time, E2) \<Rightarrow> (Inr best_move, E2, b1))))"

declare alpha_beta.simps [simp del]

declare deepening_loop.simps [simp del]

section \<open>Concrete inputs\<close>

text \<open>
  The runs examined below need answers of the rules library. They are tabulated for the
  positions that each run visits, as the library gives them there; any other entry is a
  placeholder that no run reads. \<open>quiet_move\<close> is what \<^verbatim>\<open>push\<close> does with a move that is
  no castling, en-passant capture, promotion or double pawn step; \<open>lib_is_capture\<close> is
  the library's test (a square touched by the move holds a piece of the side not to move)
  without its en-passant case.
\<close>

definition place :: "(square \<times> piece) list \<Rightarrow> piece option list" where
  "place xs = map (map_of xs) SQUARES"

definition mv :: "square \<Rightarrow> square \<Rightarrow> move" where
  "mv f t = \<lparr>from_square = f, to_square = t, promotion = None\<rparr>"

definition quiet_move :: "position \<Rightarrow> move \<Rightarrow> position" where
  "quiet_move p m =
     p\<lparr>pieces := (pieces p)[to_square m := piece_at p (from_square m), from_square m := None],
       turn := (\<not> turn p),
       ep_square := None,
       halfmove_clock := (if piece_at p (from_square m) = Some (Piece PAWN (turn p))
                             \<or> piece_at p (to_square m) \<noteq> None
                          then 0 else halfmove_clock p + 1),
       fullmove_number := (if turn p then fullmove_number p else fullmove_number p + 1)\<rparr>"

definition held_by :: "position \<Rightarrow> bool \<Rightarrow> square \<Rightarrow> bool" where
  "held_by p c s = (case piece_at p s of None \<Rightarrow> False | Some pc \<Rightarrow> color pc = c)"

definition lib_is_capture :: "position \<Rightarrow> move \<Rightarrow> bool" where
  "lib_is_capture p m =
     (held_by p (\<not> turn p) (from_square m) \<or> held_by p (\<not> turn p) (to_square m))"

definition lib_has_castling_rights :: "position \<Rightarrow> bool \<Rightarrow> bool" where
  "lib_has_castling_rights p c =
     list_ex (\<lambda>s. if c then s < 8 else 56 \<le> s) (castling_rights p)"

definition table_rules :: "(position \<Rightarrow> move list) \<Rightarrow> (position \<Rightarrow> bool) \<Rightarrow> (position \<Rightarrow> bool)
      \<Rightarrow> (position \<Rightarrow> bool) \<Rightarrow> (position \<Rightarrow> square \<Rightarrow> square list) \<Rightarrow> rules" where
  "table_rules moves check mate insufficient attacked =
     \<lparr>legal_moves = moves, apply_move = quiet_move, is_checkmate = mate,
      is_stalemate = (\<lambda>p. False), is_insufficient_material = insufficient,
      is_check = check, is_game_over = (\<lambda>b. mate (cur b) \<or> insufficient (cur b)),
      is_capture = lib_is_capture, attacks = attacked, attackers = (\<lambda>p c s. []),
      is_attacked_by = (\<lambda>p c s. False), has_castling_rights = lib_has_castling_rights\<rparr>"

definition never :: "position \<Rightarrow> bool" where
  "never p = False"

definition no_attacks :: "position \<Rightarrow> square \<Rightarrow> square list" where
  "no_attacks p s = []"

definition fresh_board :: "position \<Rightarrow> board" where
  "fresh_board p = \<lparr>cur = p, stack = []\<rparr>"

text \<open>A clock that advances by a millisecond from one reading to the next, and one that
  stands still.\<close>

definition steady_clock :: "nat \<Rightarrow> rat" where
  "steady_clock n = of_nat n / 1000"

definition frozen_clock :: "nat \<Rightarrow> rat" where
  "frozen_clock n = 0"

subsection \<open>The starting position\<close>

definition start_pieces :: "piece option list" where
  "start_pieces =
     map (\<lambda>t. Some (Piece t True)) [ROOK, KNIGHT, BISHOP, QUEEN, KING, BISHOP, KNIGHT, ROOK]
     @ replicate 8 (Some (Piece PAWN True))
     @ replicate 32 None
     @ replicate 8 (Some (Piece PAWN False))
     @ map (\<lambda>t. Some (Piece t False)) [ROOK, KNIGHT, BISHOP, QUEEN, KING, BISHOP, KNIGHT, ROOK]"

definition start_position :: position where
  "start_position = \<lparr>pieces = start_pieces, turn = True, castling_rights = [0, 7, 56, 63],
      ep_square = None, halfmove_clock = 0, fullmove_number = 1\<rparr>"

text \<open>The twenty opening moves in the order in which the library lists them:
  Nh3, Nf3, Nc3, Na3, h3, g3, ..., a3, h4, g4, ..., a4.\<close>

definition start_moves :: "move list" where
  "start_moves = [mv 6 23, mv 6 21, mv 1 18, mv 1 16]
     @ map (\<lambda>f. mv (8 + f) (16 + f)) (rev [0..<8])
     @ map (\<lambda>f. mv (8 + f) (24 + f)) (rev [0..<8])"

definition start_rules :: rules where
  "start_rules = table_rules (\<lambda>p. if p = start_position then start_moves else [])
                   never never never no_attacks"

subsection \<open>King and pawn against king\<close>

text \<open>White: Ka1, Pe4. Black: Kh8. White to move
  (\<^verbatim>\<open>7k/8/8/8/4P3/8/8/K7 w - - 0 1\<close>), and the same position with the sides swapped
  (\<^verbatim>\<open>k7/8/8/4p3/8/8/8/7K b - - 0 1\<close>).\<close>

definition kpk_position :: position where
  "kpk_position =
     \<lparr>pieces = place [(0, Piece KING True), (28, Piece PAWN True), (63, Piece KING False)],
      turn = True, castling_rights = [], ep_square = None, halfmove_clock = 0,
      fullmove_number = 1\<rparr>"

definition kpk_swapped :: position where
  "kpk_swapped =
     \<lparr>pieces = place [(56, Piece KING False), (36, Piece PAWN False), (7, Piece KING True)],
      turn = False, castling_rights = [], ep_square = None, halfmove_clock = 0,
      fullmove_number = 1\<rparr>"

definition kpk_moves :: "position \<Rightarrow> move list" where
  "kpk_moves p =
     (if pieces p = pieces kpk_position
      then (if turn p then [mv 0 9, mv 0 8, mv 0 1, mv 28 36]
            else [mv 63 62, mv 63 55, mv 63 54])
      else if pieces p = pieces kpk_swapped
      then (if turn p then [mv 7 15, mv 7 14, mv 7 6]
            else [mv 56 57, mv 56 49, mv 56 48, mv 36 28])
      else [])"

definition kpk_rules :: rules where
  "kpk_rules = table_rules kpk_moves never never never no_attacks"

subsection \<open>A checking bishop that can be taken\<close>

text \<open>White: Ka1, Pa2, Bf8. Black: Kh8, Pa3. White to move
  (\<^verbatim>\<open>5B1k/8/8/8/8/p7/P7/K7 w - - 0 1\<close>) plays Bg7+, and the king can take the bishop.
  In the position after the move the bishop attacks nine squares.\<close>

definition bishop_position :: position where
  "bishop_position =
     \<lparr>pieces = place [(0, Piece KING True), (8, Piece PAWN True), (61, Piece BISHOP True),
                      (63, Piece KING False), (16, Piece PAWN False)],
      turn = True, castling_rights = [], ep_square = None, halfmove_clock = 0,
      fullmove_number = 1\<rparr>"

definition bishop_check :: position where
  "bishop_check = quiet_move bishop_position (mv 61 54)"

definition bishop_moves :: "position \<Rightarrow> move list" where
  "bishop_moves p =
     (if pieces p = pieces bishop_check
      then (if turn p
            then map (mv 54) [63, 61, 47, 45, 36, 27, 18, 9] @ [mv 0 1]
            else [mv 63 62, mv 63 55, mv 63 54])
      else [])"

definition bishop_rules :: rules where
  "bishop_rules = table_rules bishop_moves (\<lambda>p. p = bishop_check) never never
     (\<lambda>p s. if pieces p = pieces bishop_check \<and> s = 54
             then [0, 9, 18, 27, 36, 45, 47, 61, 63] else [])"

subsection \<open>A mated second side\<close>

text \<open>After 1. e4 e5 2. Qh5 Ke7 3. Qxe5 Black is to move and checkmated
  (\<^verbatim>\<open>rnbq1bnr/ppppkppp/8/4Q3/4P3/8/PPPP1PPP/RNB1KBNR b KQ - 0 3\<close>).\<close>

definition mated_position :: position where
  "mated_position =
     \<lparr>pieces = start_pieces[12 := None, 28 := Some (Piece PAWN True), 3 := None,
                              36 := Some (Piece QUEEN True), 60 := None,
                              52 := Some (Piece KING False)],
      turn = False, castling_rights = [0, 7], ep_square = None, halfmove_clock = 0,
      fullmove_number = 3\<rparr>"

text \<open>The position with the two sides swapped: colours exchanged, the board turned
  upside down, the other side to move.\<close>

definition swap_position :: "position \<Rightarrow> position" where
  "swap_position p =
     \<lparr>pieces = map (\<lambda>s. map_option (\<lambda>pc. Piece (piece_type pc) (\<not> color pc))
                              (piece_at p (square_mirror s))) SQUARES,
      turn = (\<not> turn p),
      castling_rights = map square_mirror (castling_rights p),
      ep_square = map_option square_mirror (ep_square p),
      halfmove_clock = halfmove_clock p,
      fullmove_number = fullmove_number p\<rparr>"

definition swap_board :: "board \<Rightarrow> board" where
  "swap_board b = \<lparr>cur = swap_position (cur b), stack = map swap_position (stack b)\<rparr>"

definition mate_rules :: rules where
  "mate_rules = table_rules (\<lambda>p. []) never
     (\<lambda>p. p = mated_position \<or> p = swap_position mated_position) never no_attacks"

subsection \<open>Bare kings\<close>

text \<open>White: Ka1. Black: Kh8 (\<^verbatim>\<open>7k/8/8/8/8/8/8/K7 w - - 0 1\<close>): a draw by insufficient
  material, which ends the game, as does the position with the sides swapped.\<close>

definition kings_position :: position where
  "kings_position =
     \<lparr>pieces = place [(0, Piece KING True), (63, Piece KING False)],
      turn = True, castling_rights = [], ep_square = None, halfmove_clock = 0,
      fullmove_number = 1\<rparr>"

definition kings_rules :: rules where
  "kings_rules = table_rules (\<lambda>p. []) never never (\<lambda>p. True) no_attacks"

subsection \<open>A history with a key of count zero\<close>

text \<open>The dictionary keeps a key whose count has gone back to zero. Here the fingerprint of
  the king-and-pawn position is such a key.\<close>

definition zero_count_engine :: engine where
  "zero_count_engine =
     (ChessEngine 3 1000)\<lparr>position_history := [pos_hash (fresh_board kpk_position) \<mapsto> 0]\<rparr>"

section \<open>Auxiliary notions\<close>

text \<open>Two engine states that differ at most in the king table of the evaluator.\<close>

definition retabled :: "engine \<Rightarrow> engine \<Rightarrow> bool" where
  "retabled E E' =
     (depth E' = depth E \<and> time_limit E' = time_limit E \<and> start_time E' = start_time E
      \<and> position_history E' = position_history E \<and> reads E' = reads E
      \<and> piece_defense (evaluator E') = piece_defense (evaluator E))"

text \<open>The test of line 36 on one reply, from the position in which the reply is made.\<close>

definition captures_mover :: "rules \<Rightarrow> piece option \<Rightarrow> position \<Rightarrow> move \<Rightarrow> bool" where
  "captures_mover L moving_piece p om =
     (is_capture L (apply_move L p om) om
      \<and> piece_at (apply_move L p om) (to_square om) = moving_piece)"

text \<open>The occurrence count of a fingerprint, as \<^verbatim>\<open>position_history.get(h, 0)\<close> reads it.\<close>

definition occurrences :: "engine \<Rightarrow> fingerprint \<Rightarrow> int" where
  "occurrences E h = (case position_history E h of None \<Rightarrow> 0 | Some n \<Rightarrow> n)"

text \<open>The evaluator object after \<^verbatim>\<open>evaluate\<close> has been called on each board of a list.\<close>

definition evaluate_many :: "rules \<Rightarrow> evaluator \<Rightarrow> board list \<Rightarrow> evaluator" where
  "evaluate_many L ev bs = foldl (\<lambda>ev b. fst (snd (evaluate L ev b))) ev bs"

text \<open>The rule of lines 88 and 89 applied to a raw evaluation.\<close>

definition dampened :: "engine \<Rightarrow> board \<Rightarrow> score \<Rightarrow> score" where
  "dampened E b raw =
     (if position_history E (pos_hash b) \<noteq> None \<and> score_less (Fin 500) (score_abs raw)
      then score_scale (8 / 10) raw else raw)"

text \<open>A position in which \<^verbatim>\<open>evaluate\<close> returns 0 at line 124.\<close>

definition drawn :: "rules \<Rightarrow> position \<Rightarrow> bool" where
  "drawn L p = (\<not> is_checkmate L p \<and> (is_stalemate L p \<or> is_insufficient_material L p))"

text \<open>An exit by \<^verbatim>\<open>return\<close> or by the cancellation, and an exit by \<^verbatim>\<open>return\<close>.\<close>

definition clean_exit :: "error + 'a \<Rightarrow> bool" where
  "clean_exit r = (case r of Inl e \<Rightarrow> e = TimeoutError | Inr x \<Rightarrow> True)"

definition returned :: "error + 'a \<Rightarrow> bool" where
  "returned r = (case r of Inl e \<Rightarrow> False | Inr x \<Rightarrow> True)"



section \<open>Basic facts\<close>

lemma pop_push: "pop (push L b m) = Inr b"
  by (simp add: pop_def push_def)

lemma pop_with_push: "pop_with x E (push L b m) = (Inr x, E, b)"
  by (simp add: pop_with_def pop_push)

lemma evaluate_mobility_restores: "snd (evaluate_mobility L p) = p"
  by (simp add: evaluate_mobility_def mobility_step_def Let_def)

lemma evaluate_board: "snd (snd (evaluate L ev b)) = b"
  by (simp add: evaluate_def Let_def evaluate_mobility_restores)

lemma position_scores_king_table:
  "PIECE_POSITION_SCORES (ev\<lparr>king_table := t\<rparr>) pt = PIECE_POSITION_SCORES (ev'\<lparr>king_table := t\<rparr>) pt"
  by (cases pt) simp_all

lemma get_position_value_king_table:
  "get_position_value (ev\<lparr>king_table := t\<rparr>) pc sq = get_position_value (ev'\<lparr>king_table := t\<rparr>) pc sq"
  unfolding get_position_value_def
  by (simp only: position_scores_king_table [where ev = ev and ev' = ev'])

lemma material_king_table:
  "evaluate_material_and_position L (ev\<lparr>king_table := t\<rparr>) p
   = evaluate_material_and_position L (ev'\<lparr>king_table := t\<rparr>) p"
  unfolding evaluate_material_and_position_def
  by (simp only: get_position_value_king_table [where ev = ev and ev' = ev'])

lemma evaluate_piece_defense: "piece_defense (fst (snd (evaluate L ev b))) = piece_defense ev"
  by (simp add: evaluate_def Let_def)

lemma retabled_refl: "retabled E E"
  by (simp add: retabled_def)

lemma retabled_trans: "retabled E E1 \<Longrightarrow> retabled E1 E2 \<Longrightarrow> retabled E E2"
  by (simp add: retabled_def)

lemma run_evaluate_result:
  assumes "run_evaluate L E b = (s, E', b')"
  shows "s = fst (evaluate L (evaluator E) b) \<and> retabled E E' \<and> b' = b"
proof -
  obtain s0 ev0 b0 where e: "evaluate L (evaluator E) b = (s0, ev0, b0)"
    by (cases "evaluate L (evaluator E) b") auto
  have b0: "b0 = b" using evaluate_board [of L "evaluator E" b] e by simp
  have ev0: "piece_defense ev0 = piece_defense (evaluator E)"
    using evaluate_piece_defense [of L "evaluator E" b] e by simp
  from assms e have "s = s0" "E' = E\<lparr>evaluator := ev0\<rparr>" "b' = b0"
    by (simp_all add: run_evaluate_def)
  then show ?thesis using e b0 ev0 by (simp add: retabled_def)
qed

lemma check_replies_result:
  "check_replies L mp E b s oms =
     (Inr (s - 100 * of_nat (length (filter (captures_mover L mp (cur b)) oms))), E, b)"
proof (induction oms arbitrary: s)
  case Nil
  then show ?case by simp
next
  case (Cons om oms)
  have c: "cur (push L b om) = apply_move L (cur b) om" by (simp add: push_def)
  show ?case
    by (simp add: Let_def pop_push Cons.IH c captures_mover_def algebra_simps)
qed

lemma check_score_result:
  "\<exists>s E'. check_score L E b m = (Inr s, E', b) \<and> retabled E E'"
proof -
  let ?b1 = "push L b m"
  obtain s E2 b2 where r: "run_evaluate L E ?b1 = (s, E2, b2)"
    by (cases "run_evaluate L E ?b1") auto
  from run_evaluate_result [OF r] have E2: "retabled E E2" and b2: "b2 = ?b1" by simp_all
  show ?thesis
    unfolding check_score_def Let_def
    by (simp add: pop_with_push r b2 check_replies_result retabled_refl E2)
qed

lemma repetition_score_result:
  "\<exists>s E'. repetition_score L E b m = (Inr s, E', b) \<and> retabled E E'"
proof -
  let ?b1 = "push L b m"
  obtain s E2 b2 where r: "run_evaluate L E ?b1 = (s, E2, b2)"
    by (cases "run_evaluate L E ?b1") auto
  from run_evaluate_result [OF r] have E2: "retabled E E2" and b2: "b2 = ?b1" by simp_all
  show ?thesis
    unfolding repetition_score_def Let_def
    by (simp add: pop_with_push r b2 retabled_refl E2)
qed

lemma defense_score_missing:
  "piece_defense (evaluator E) = None \<Longrightarrow>
     defense_score L E b m = (Inl AttributeError, E, push L b m)"
  by (simp add: defense_score_def)

lemma move_score_missing:
  assumes "piece_defense (evaluator E) = None"
  shows "\<exists>E' b'. move_score L E b m = (Inl AttributeError, E', b') \<and> retabled E E'
           \<and> (b' = b \<or> b' = push L b m)
           \<and> (capture_score (cur b) m \<noteq> Inl AttributeError \<longrightarrow> b' = push L b m)"
proof -
  obtain s1 E1 where c: "check_score L E b m = (Inr s1, E1, b)" and E1: "retabled E E1"
    using check_score_result by blast
  obtain s3 E2 where r: "repetition_score L E1 b m = (Inr s3, E2, b)" and E2: "retabled E1 E2"
    using repetition_score_result by blast
  have E02: "retabled E E2" using E1 E2 by (rule retabled_trans)
  have pd: "piece_defense (evaluator E2) = None"
    using E02 assms by (simp add: retabled_def)
  show ?thesis
  proof (cases "capture_score (cur b) m")
    case (Inl e)
    then have "e = AttributeError"
      by (auto simp: capture_score_def split: option.splits)
    with Inl c E1 show ?thesis by (simp add: move_score_def)
  next
    case (Inr s2)
    with c r E02 defense_score_missing [OF pd] show ?thesis
      by (simp add: move_score_def)
  qed
qed

lemma order_moves_missing:
  assumes "piece_defense (evaluator E) = None"
  shows "\<exists>E' b'. order_moves L E b (m # ms) = (Inl AttributeError, E', b') \<and> retabled E E'
           \<and> (b' = b \<or> b' = push L b m)
           \<and> (capture_score (cur b) m \<noteq> Inl AttributeError \<longrightarrow> b' = push L b m)"
proof -
  obtain E' b' where "move_score L E b m = (Inl AttributeError, E', b')" "retabled E E'"
     "b' = b \<or> b' = push L b m" "capture_score (cur b) m \<noteq> Inl AttributeError \<longrightarrow> b' = push L b m"
    using move_score_missing [OF assms] by blast
  then show ?thesis by (simp add: order_moves_def)
qed

lemma evaluate_score_of_position:
  "cur b = cur b' \<Longrightarrow> fst (evaluate L ev b) = fst (evaluate L ev' b')"
  unfolding evaluate_def Let_def
  by (simp only: material_king_table [where ev = ev and ev' = ev']) (simp add: evaluate_mobility_restores)

lemma evaluate_checkmate:
  "is_checkmate L (cur b) \<Longrightarrow> evaluate L ev b = ((if turn (cur b) then MInf else PInf), ev, b)"
  by (simp add: evaluate_def)

lemma alpha_beta_missing:
  assumes pd: "piece_defense (evaluator E) = None"
    and up: "\<not> time_limit E < clk (reads E) - start_time E"
    and d: "d \<noteq> 0" and go: "\<not> is_game_over L b"
    and lm: "legal_moves L (cur b) = m # ms"
  shows "\<exists>E' b'. alpha_beta L clk d E b alpha beta mx = (Inl AttributeError, E', b')
           \<and> position_history E' = position_history E
           \<and> (b' = b \<or> b' = push L b m)
           \<and> (capture_score (cur b) m \<noteq> Inl AttributeError \<longrightarrow> b' = push L b m)"
proof -
  let ?E0 = "E\<lparr>reads := reads E + 1\<rparr>"
  have t: "is_time_up clk E = (False, ?E0)"
    using up by (simp add: is_time_up_def time_def)
  have "piece_defense (evaluator ?E0) = None" using pd by simp
  from order_moves_missing [OF this, of L b m ms]
  obtain E' b' where o: "order_moves L ?E0 b (m # ms) = (Inl AttributeError, E', b')"
    and r: "retabled ?E0 E'" and b: "b' = b \<or> b' = push L b m"
      "capture_score (cur b) m \<noteq> Inl AttributeError \<longrightarrow> b' = push L b m"
    by blast
  have "position_history E' = position_history E" using r by (simp add: retabled_def)
  then show ?thesis using t d go lm o b by (simp add: alpha_beta.simps)
qed

lemma iterative_deepening_missing:
  assumes pd: "piece_defense (evaluator E) = None"
    and dp: "1 \<le> depth E"
    and t1: "\<not> time_limit E < clk (reads E) - start_time E"
    and t2: "\<not> time_limit E < clk (Suc (reads E)) - start_time E"
    and go: "\<not> is_game_over L b"
    and lm: "legal_moves L (cur b) = m # ms"
  shows "\<exists>E' b'. iterative_deepening L clk E b = (Inl AttributeError, E', b')
           \<and> position_history E' = position_history E
           \<and> (b' = b \<or> b' = push L b m)
           \<and> (capture_score (cur b) m \<noteq> Inl AttributeError \<longrightarrow> b' = push L b m)"
proof -
  define E0 where "E0 = E\<lparr>reads := reads E + 1\<rparr>"
  have t: "is_time_up clk E = (False, E0)"
    using t1 by (simp add: is_time_up_def time_def E0_def)
  have pd0: "piece_defense (evaluator E0) = None" using pd by (simp add: E0_def)
  have up0: "\<not> time_limit E0 < clk (reads E0) - start_time E0"
    using t2 by (simp add: E0_def)
  have one: "nat 1 \<noteq> 0" by simp
  from alpha_beta_missing [where clk = clk and alpha = MInf and beta = PInf and mx = True, OF pd0 up0 one go lm]
  obtain E' b' where a: "alpha_beta L clk (nat 1) E0 b MInf PInf True = (Inl AttributeError, E', b')"
    and h: "position_history E' = position_history E0" and b: "b' = b \<or> b' = push L b m"
      "capture_score (cur b) m \<noteq> Inl AttributeError \<longrightarrow> b' = push L b m"
    by blast
  have "deepening_loop L clk (depth E) 1 E b None = (Inl AttributeError, E', b')"
    by (subst deepening_loop.simps) (use a in \<open>simp add: dp t\<close>)
  moreover have "position_history E' = position_history E" using h by (simp add: E0_def)
  ultimately show ?thesis using b by (simp add: iterative_deepening_def)
qed

lemma get_best_move_missing:
  assumes pd: "piece_defense (evaluator E) = None"
    and dp: "1 \<le> depth E"
    and t1: "\<not> time_limit E < clk (Suc (reads E)) - clk (reads E)"
    and t2: "\<not> time_limit E < clk (Suc (Suc (reads E))) - clk (reads E)"
    and go: "\<not> is_game_over L b"
    and lm: "legal_moves L (cur b) = m # ms"
  shows "\<exists>E' b'. get_best_move L clk E b = (Inl AttributeError, E', b')
           \<and> position_history E' = Map.empty
           \<and> (b' = b \<or> b' = push L b m)
           \<and> (capture_score (cur b) m \<noteq> Inl AttributeError \<longrightarrow> b' = push L b m)"
proof -
  define E1 where
    "E1 = E\<lparr>reads := reads E + 1, start_time := clk (reads E), position_history := Map.empty\<rparr>"
  have 1: "piece_defense (evaluator E1) = None" using pd by (simp add: E1_def)
  have 2: "1 \<le> depth E1" using dp by (simp add: E1_def)
  have 3: "\<not> time_limit E1 < clk (reads E1) - start_time E1" using t1 by (simp add: E1_def)
  have 4: "\<not> time_limit E1 < clk (Suc (reads E1)) - start_time E1" using t2 by (simp add: E1_def)
  from iterative_deepening_missing [where clk = clk, OF 1 2 3 4 go lm]
  obtain E' b' where a: "iterative_deepening L clk E1 b = (Inl AttributeError, E', b')"
    and h: "position_history E' = position_history E1" and b: "b' = b \<or> b' = push L b m"
      "capture_score (cur b) m \<noteq> Inl AttributeError \<longrightarrow> b' = push L b m"
    by blast
  have "get_best_move L clk E b = (Inl AttributeError, E', b')"
    using a by (simp add: get_best_move_def time_def E1_def)
  moreover have "position_history E' = Map.empty" using h by (simp add: E1_def)
  ultimately show ?thesis using b by simp
qed

lemma start_moves_first: "start_moves = mv 6 23 # tl start_moves"
  by (simp add: start_moves_def)

lemma start_not_over: "\<not> is_game_over start_rules (fresh_board start_position)"
  by (simp add: start_rules_def table_rules_def never_def)

lemma start_legal:
  "legal_moves start_rules (cur (fresh_board start_position)) = mv 6 23 # tl start_moves"
  using start_moves_first by (simp add: start_rules_def table_rules_def fresh_board_def)

lemma start_no_capture:
  "capture_score (cur (fresh_board start_position)) (mv 6 23) = Inr 0"
  by code_simp

subsection \<open>Terminal nodes and the deepening loop\<close>

lemma terminal_node_value:
  "fst (terminal_node L E b) = Inr (dampened E b (fst (evaluate L (evaluator E) b)), None)
   \<and> snd (snd (terminal_node L E b)) = b
   \<and> position_history (fst (snd (terminal_node L E b))) = position_history E"
proof -
  obtain s E1 b1 where r: "run_evaluate L E b = (s, E1, b1)"
    by (cases "run_evaluate L E b") auto
  from run_evaluate_result [OF r] show ?thesis
    by (simp add: terminal_node_def r dampened_def retabled_def)
qed

lemma alpha_beta_terminal:
  assumes "\<not> time_limit E < clk (reads E) - start_time E" and "d = 0 \<or> is_game_over L b"
  shows "alpha_beta L clk d E b alpha beta mx = terminal_node L (E\<lparr>reads := reads E + 1\<rparr>) b"
  using assms by (auto simp: alpha_beta.simps is_time_up_def time_def)

lemma deepening_loop_beyond:
  "dmax < current_depth \<Longrightarrow> deepening_loop L clk dmax current_depth E b best = (Inr best, E, b)"
  by (subst deepening_loop.simps) simp

lemma deepening_loop_late:
  "time_limit E < clk (reads E) - start_time E \<Longrightarrow>
     deepening_loop L clk dmax current_depth E b best
       = (Inr best, (if current_depth \<le> dmax then E\<lparr>reads := reads E + 1\<rparr> else E), b)"
  by (subst deepening_loop.simps) (simp add: is_time_up_def time_def)

lemma evaluate_drawn: "drawn L (cur b) \<Longrightarrow> fst (evaluate L ev b) = Fin 0"
  by (auto simp: drawn_def evaluate_def)

subsection \<open>The components of the ordering score\<close>

lemma check_score_value:
  "fst (check_score L E b m) =
     Inr (if is_checkmate L (apply_move L (cur b) m) then 10000
          else if is_check L (apply_move L (cur b) m)
          then 30 + (if score_less (Fin 500) (fst (evaluate L (evaluator E) (push L b m)))
                     then 50 else 0)
               - 100 * of_nat (length (filter
                   (captures_mover L (piece_at (cur b) (from_square m)) (apply_move L (cur b) m))
                   (legal_moves L (apply_move L (cur b) m))))
          else 0)"
proof -
  let ?b1 = "push L b m"
  have c: "cur ?b1 = apply_move L (cur b) m" by (simp add: push_def)
  obtain s E2 b2 where r: "run_evaluate L E ?b1 = (s, E2, b2)"
    by (cases "run_evaluate L E ?b1") auto
  from run_evaluate_result [OF r] have s: "s = fst (evaluate L (evaluator E) ?b1)"
    and b2: "b2 = ?b1" by simp_all
  show ?thesis
    unfolding check_score_def Let_def
    by (simp add: pop_with_push r b2 check_replies_result c s)
qed

lemma replies_never_capture_mover:
  assumes "\<forall>om \<in> set oms. \<not> held_by (apply_move L p om) c (to_square om)"
  shows "filter (captures_mover L (Some (Piece t c)) p) oms = []"
proof -
  have "\<not> captures_mover L (Some (Piece t c)) p om" if "om \<in> set oms" for om
    using assms that by (auto simp: captures_mover_def held_by_def)
  then show ?thesis by (simp add: filter_empty_conv)
qed

lemma repetition_score_value:
  "fst (repetition_score L E b m) =
     Inr (if position_history E (pos_hash (push L b m)) \<noteq> None
             \<and> score_less (Fin 500) (fst (evaluate L (evaluator E) (push L b m)))
          then - 400 else 0)"
proof -
  let ?b1 = "push L b m"
  obtain s E2 b2 where r: "run_evaluate L E ?b1 = (s, E2, b2)"
    by (cases "run_evaluate L E ?b1") auto
  from run_evaluate_result [OF r] have s: "s = fst (evaluate L (evaluator E) ?b1)"
    and b2: "b2 = ?b1" by simp_all
  show ?thesis
    unfolding repetition_score_def Let_def
    by (simp add: pop_with_push r b2 s)
qed

lemma repetition_score_retabled:
  assumes "retabled E E1"
  shows "fst (repetition_score L E1 b m) = fst (repetition_score L E b m)"
proof -
  have "position_history E1 = position_history E" using assms by (simp add: retabled_def)
  moreover have "fst (evaluate L (evaluator E1) (push L b m)) = fst (evaluate L (evaluator E) (push L b m))"
    by (rule evaluate_score_of_position) simp
  ultimately show ?thesis by (simp add: repetition_score_value)
qed

lemma move_score_value:
  assumes pd: "piece_defense (evaluator E) = Some f"
    and cs: "capture_score (cur b) m = Inr c"
    and s1: "fst (check_score L E b m) = Inr s1"
    and s3: "fst (repetition_score L E b m) = Inr s3"
  shows "fst (move_score L E b m)
           = Inr (s1 + c + promotion_score m + center_score m + s3 + f L (apply_move L (cur b) m))"
proof -
  obtain t1 E1 where c: "check_score L E b m = (Inr t1, E1, b)" and E1: "retabled E E1"
    using check_score_result by blast
  obtain t3 E2 where r: "repetition_score L E1 b m = (Inr t3, E2, b)" and E2: "retabled E1 E2"
    using repetition_score_result by blast
  have t1: "t1 = s1" using c s1 by simp
  have t3: "t3 = s3" using r s3 repetition_score_retabled [OF E1, of L b m] by simp
  have "piece_defense (evaluator E2) = Some f"
    using retabled_trans [OF E1 E2] pd by (simp add: retabled_def)
  moreover have "cur (push L b m) = apply_move L (cur b) m" by (simp add: push_def)
  ultimately have d: "defense_score L E2 b m = (Inr (f L (apply_move L (cur b) m)), E2, b)"
    by (simp add: defense_score_def pop_with_push)
  show ?thesis by (simp add: move_score_def c cs r d t1 t3)
qed

subsection \<open>Exits of the search\<close>

lemma max_loop_cancelled:
  assumes "time_limit E < clk (reads E) - start_time E"
  shows "max_loop L clk d (m # ms) E b alpha beta max_eval best_move =
           (Inl TimeoutError,
            E\<lparr>position_history := (position_history E)
                  (pos_hash (push L b m) \<mapsto> occurrences E (pos_hash (push L b m)) + 1),
               reads := reads E + 1\<rparr>,
            b)"
  using assms
  by (simp add: enter_child_def Let_def alpha_beta.simps is_time_up_def time_def
        abort_child_def pop_push occurrences_def)

lemma min_loop_cancelled:
  assumes "time_limit E < clk (reads E) - start_time E"
  shows "min_loop L clk d (m # ms) E b alpha beta min_eval best_move =
           (Inl TimeoutError,
            E\<lparr>position_history := (position_history E)
                  (pos_hash (push L b m) \<mapsto> occurrences E (pos_hash (push L b m)) + 1),
               reads := reads E + 1\<rparr>,
            b)"
  using assms
  by (simp add: enter_child_def Let_def alpha_beta.simps is_time_up_def time_def
        abort_child_def pop_push occurrences_def)

lemma move_score_exit:
  assumes "move_score L E b m = (r, E', b')"
  shows "retabled E E' \<and> (case r of Inl e \<Rightarrow> e = AttributeError | Inr s \<Rightarrow> b' = b)"
proof -
  obtain s1 E1 where c: "check_score L E b m = (Inr s1, E1, b)" and E1: "retabled E E1"
    using check_score_result by blast
  obtain s3 E2 where r: "repetition_score L E1 b m = (Inr s3, E2, b)" and E2: "retabled E1 E2"
    using repetition_score_result by blast
  have E02: "retabled E E2" using E1 E2 by (rule retabled_trans)
  show ?thesis
  proof (cases "capture_score (cur b) m")
    case (Inl e)
    then have "e = AttributeError"
      by (auto simp: capture_score_def split: option.splits)
    with Inl c have "move_score L E b m = (Inl AttributeError, E1, b)"
      by (simp add: move_score_def)
    with assms E1 show ?thesis by auto
  next
    case (Inr s2)
    show ?thesis
    proof (cases "piece_defense (evaluator E2)")
      case None
      with Inr c r have "move_score L E b m = (Inl AttributeError, E2, push L b m)"
        by (simp add: move_score_def defense_score_def)
      with assms E02 show ?thesis by auto
    next
      case (Some f)
      with Inr c r have "\<exists>s. move_score L E b m = (Inr s, E2, b)"
        by (simp add: move_score_def defense_score_def pop_with_push)
      with assms E02 show ?thesis by auto
    qed
  qed
qed

lemma move_scores_exit:
  "move_scores L E b ms = (r, E', b') \<Longrightarrow>
     retabled E E' \<and> (case r of Inl e \<Rightarrow> e = AttributeError | Inr xs \<Rightarrow> b' = b)"
proof (induction ms arbitrary: E b r E' b')
  case Nil
  then show ?case by (auto simp: retabled_refl)
next
  case (Cons m ms)
  obtain r1 E1 b1 where m: "move_score L E b m = (r1, E1, b1)"
    by (cases "move_score L E b m") auto
  from move_score_exit [OF m]
  have e1: "retabled E E1" and c1: "case r1 of Inl e \<Rightarrow> e = AttributeError | Inr s \<Rightarrow> b1 = b"
    by simp_all
  show ?case
  proof (cases r1)
    case (Inl e)
    with m Cons.prems e1 c1 show ?thesis by auto
  next
    case (Inr s)
    with c1 have b1: "b1 = b" by simp
    obtain r2 E2 b2 where ms: "move_scores L E1 b ms = (r2, E2, b2)"
      by (cases "move_scores L E1 b ms") auto
    from Cons.IH [OF ms]
    have e2: "retabled E1 E2" and c2: "case r2 of Inl e \<Rightarrow> e = AttributeError | Inr xs \<Rightarrow> b2 = b"
      by simp_all
    have e02: "retabled E E2" using e1 e2 by (rule retabled_trans)
    from Cons.prems m Inr b1 ms e02 c2 show ?thesis
      by (cases r2) auto
  qed
qed

lemma order_moves_exit:
  assumes "order_moves L E b ms = (r, E', b')"
  shows "retabled E E' \<and> (case r of Inl e \<Rightarrow> e = AttributeError | Inr xs \<Rightarrow> b' = b)"
proof -
  obtain r0 E0 b0 where m: "move_scores L E b ms = (r0, E0, b0)"
    by (cases "move_scores L E b ms") auto
  from move_scores_exit [OF m] assms m show ?thesis
    by (cases r0) (auto simp: order_moves_def)
qed

lemma occurrences_retabled: "retabled E E' \<Longrightarrow> occurrences E' = occurrences E"
  by (simp add: retabled_def occurrences_def fun_eq_iff)

lemma enter_child_eq:
  "enter_child L E b m =
     (E\<lparr>position_history := (position_history E)
          (pos_hash (push L b m) \<mapsto> occurrences E (pos_hash (push L b m)) + 1)\<rparr>,
      push L b m)"
  by (simp add: enter_child_def Let_def occurrences_def)

lemma occurrences_update:
  "occurrences (E\<lparr>position_history := (position_history E)(h \<mapsto> n)\<rparr>) = (occurrences E)(h := n)"
  by (simp add: occurrences_def fun_eq_iff)

lemma leave_child_eq:
  "leave_child E (push L b m) h =
     (case position_history E h of None \<Rightarrow> (Inl KeyError, E, push L b m)
      | Some n \<Rightarrow> (Inr (), E\<lparr>position_history := (position_history E)(h \<mapsto> n - 1)\<rparr>, b))"
  by (simp add: leave_child_def pop_with_push split: option.splits)

lemma child_left:
  assumes o: "occurrences E2 = (occurrences E)(h := occurrences E h + 1)"
    and l: "leave_child E2 (push L b m) h = (Inr u, E3, b3)"
  shows "b3 = b \<and> occurrences E3 = occurrences E"
proof (cases "position_history E2 h")
  case None
  with l show ?thesis by (simp add: leave_child_eq)
next
  case (Some n)
  then have n: "occurrences E2 h = n" by (simp add: occurrences_def)
  with o have "n = occurrences E h + 1" by (simp add: fun_eq_iff)
  moreover from l Some have "b3 = b"
    and "E3 = E2\<lparr>position_history := (position_history E2)(h \<mapsto> n - 1)\<rparr>"
    by (simp_all add: leave_child_eq)
  ultimately show ?thesis using o by (auto simp: occurrences_update fun_eq_iff)
qed

lemma search_exits:
  "alpha_beta L clk d E b alpha beta mx = (r, E', b') \<Longrightarrow> clean_exit r \<Longrightarrow>
     b' = b \<and> (returned r \<longrightarrow> occurrences E' = occurrences E)"
  "max_loop L clk d ms E b alpha beta ev bm = (r, E', b') \<Longrightarrow> clean_exit r \<Longrightarrow>
     b' = b \<and> (returned r \<longrightarrow> occurrences E' = occurrences E)"
  "min_loop L clk d ms E b alpha beta ev bm = (r, E', b') \<Longrightarrow> clean_exit r \<Longrightarrow>
     b' = b \<and> (returned r \<longrightarrow> occurrences E' = occurrences E)"
proof (induction L clk d E b alpha beta mx and L clk d ms E b alpha beta ev bm
         and L clk d ms E b alpha beta ev bm
       arbitrary: r E' b' and r E' b' and r E' b'
       rule: alpha_beta_max_loop_min_loop.induct)
  case (1 L clk d E b alpha beta maximizing_player)
  let ?E0 = "E\<lparr>reads := reads E + 1\<rparr>"
  have t: "is_time_up clk E = (time_limit E < clk (reads E) - start_time E, ?E0)"
    by (simp add: is_time_up_def time_def)
  have o0: "occurrences ?E0 = occurrences E" by (simp add: occurrences_def fun_eq_iff)
  show ?case
  proof (cases "time_limit E < clk (reads E) - start_time E")
    case True
    with "1.prems" t show ?thesis by (auto simp: alpha_beta.simps returned_def)
  next
    case up: False
    show ?thesis
    proof (cases "d = 0 \<or> is_game_over L b")
      case True
      with "1.prems" t up have "terminal_node L ?E0 b = (r, E', b')"
        by (simp add: alpha_beta.simps)
      with terminal_node_value [of L ?E0 b] o0 show ?thesis
        by (auto simp: occurrences_def fun_eq_iff)
    next
      case go: False
      obtain r1 E1 b1 where om: "order_moves L ?E0 b (legal_moves L (cur b)) = (r1, E1, b1)"
        by (cases "order_moves L ?E0 b (legal_moves L (cur b))") auto
      from order_moves_exit [OF om]
      have e1: "retabled ?E0 E1" and c1: "case r1 of Inl e \<Rightarrow> e = AttributeError | Inr xs \<Rightarrow> b1 = b"
        by simp_all
      have o1: "occurrences E1 = occurrences E" using occurrences_retabled [OF e1] o0 by simp
      show ?thesis
      proof (cases r1)
        case (Inl e)
        with c1 om "1.prems" t up go show ?thesis
          by (auto simp: alpha_beta.simps clean_exit_def)
      next
        case (Inr ordered)
        with c1 have b1: "b1 = b" by simp
        show ?thesis
        proof (cases maximizing_player)
          case True
          with "1.prems" t up go om Inr
          have "max_loop L clk (d - 1) ordered E1 b1 alpha beta MInf None = (r, E', b')"
            by (simp add: alpha_beta.simps)
          from "1.IH"(1) [OF t [symmetric] up go om [symmetric] Inr refl True this "1.prems"(2)]
          show ?thesis using o1 b1 by simp
        next
          case False
          with "1.prems" t up go om Inr
          have "min_loop L clk (d - 1) ordered E1 b1 alpha beta PInf None = (r, E', b')"
            by (simp add: alpha_beta.simps)
          from "1.IH"(2) [OF t [symmetric] up go om [symmetric] Inr refl False this "1.prems"(2)]
          show ?thesis using o1 b1 by simp
        qed
      qed
    qed
  qed
next
  case (2 L clk d E b alpha beta max_eval best_move)
  then show ?case by (simp add: returned_def)
next
  case (3 L clk d m ms E b alpha beta max_eval best_move)
  let ?b1 = "push L b m"
  let ?h = "pos_hash ?b1"
  obtain E1 where en: "enter_child L E b m = (E1, ?b1)"
    and o1: "occurrences E1 = (occurrences E)(?h := occurrences E ?h + 1)"
    by (simp add: enter_child_eq occurrences_update)
  obtain r2 E2 b2 where ab: "alpha_beta L clk d E1 ?b1 alpha beta False = (r2, E2, b2)"
    by (cases "alpha_beta L clk d E1 ?b1 alpha beta False") auto
  show ?case
  proof (cases r2)
    case (Inl e)
    show ?thesis
    proof (cases "e = TimeoutError")
      case True
      with Inl have "clean_exit r2" by (simp add: clean_exit_def)
      from "3.IH"(1) [OF en [symmetric] ab this] have "b2 = ?b1" by simp
      with "3.prems"(1) en ab Inl True show ?thesis
        by (auto simp: abort_child_def pop_push returned_def)
    next
      case False
      with "3.prems" en ab Inl show ?thesis by (auto simp: clean_exit_def)
    qed
  next
    case (Inr sm)
    obtain eval mv where sm: "sm = (eval, mv)" by (cases sm) auto
    from Inr have "clean_exit r2" "returned r2" by (simp_all add: clean_exit_def returned_def)
    from "3.IH"(1) [OF en [symmetric] ab this(1)] this(2)
    have b2: "b2 = ?b1" and o2: "occurrences E2 = occurrences E1" by simp_all
    obtain r3 E3 b3 where lc: "leave_child E2 ?b1 ?h = (r3, E3, b3)"
      by (cases "leave_child E2 ?b1 ?h") auto
    show ?thesis
    proof (cases r3)
      case (Inl e)
      with "3.prems" en ab Inr sm b2 lc show ?thesis by (auto simp: clean_exit_def leave_child_eq split: option.splits)
    next
      case u: (Inr u)
      from child_left [OF _ lc [unfolded u]] o1 o2
      have b3: "b3 = b" and o3: "occurrences E3 = occurrences E" by simp_all
      show ?thesis
      proof (cases "score_le beta (score_max alpha eval)")
        case True
        with "3.prems"(1) en ab Inr sm b2 lc u b3 o3 show ?thesis by auto
      next
        case False
        with "3.prems"(1) en ab Inr sm b2 lc u
        have ml: "max_loop L clk d ms E3 b3 (score_max alpha eval) beta
                (if score_less max_eval eval then eval else max_eval)
                (if score_less max_eval eval then Some m else best_move) = (r, E', b')"
          by simp
        have lc': "leave_child E2 b2 ?h = (r3, E3, b3)" using lc b2 by simp
        from "3.IH"(2) [OF en [symmetric] ab [symmetric] Inr sm [symmetric] refl
            lc' [symmetric] u refl False ml "3.prems"(2)]
        show ?thesis using b3 o3 by simp
      qed
    qed
  qed
next
  case (4 L clk d E b alpha beta min_eval best_move)
  then show ?case by (simp add: returned_def)
next
  case (5 L clk d m ms E b alpha beta min_eval best_move)
  let ?b1 = "push L b m"
  let ?h = "pos_hash ?b1"
  obtain E1 where en: "enter_child L E b m = (E1, ?b1)"
    and o1: "occurrences E1 = (occurrences E)(?h := occurrences E ?h + 1)"
    by (simp add: enter_child_eq occurrences_update)
  obtain r2 E2 b2 where ab: "alpha_beta L clk d E1 ?b1 alpha beta True = (r2, E2, b2)"
    by (cases "alpha_beta L clk d E1 ?b1 alpha beta True") auto
  show ?case
  proof (cases r2)
    case (Inl e)
    show ?thesis
    proof (cases "e = TimeoutError")
      case True
      with Inl have "clean_exit r2" by (simp add: clean_exit_def)
      from "5.IH"(1) [OF en [symmetric] ab this] have "b2 = ?b1" by simp
      with "5.prems"(1) en ab Inl True show ?thesis
        by (auto simp: abort_child_def pop_push returned_def)
    next
      case False
      with "5.prems" en ab Inl show ?thesis by (auto simp: clean_exit_def)
    qed
  next
    case (Inr sm)
    obtain eval mv where sm: "sm = (eval, mv)" by (cases sm) auto
    from Inr have "clean_exit r2" "returned r2" by (simp_all add: clean_exit_def returned_def)
    from "5.IH"(1) [OF en [symmetric] ab this(1)] this(2)
    have b2: "b2 = ?b1" and o2: "occurrences E2 = occurrences E1" by simp_all
    obtain r3 E3 b3 where lc: "leave_child E2 ?b1 ?h = (r3, E3, b3)"
      by (cases "leave_child E2 ?b1 ?h") auto
    show ?thesis
    proof (cases r3)
      case (Inl e)
      with "5.prems" en ab Inr sm b2 lc show ?thesis by (auto simp: clean_exit_def leave_child_eq split: option.splits)
    next
      case u: (Inr u)
      from child_left [OF _ lc [unfolded u]] o1 o2
      have b3: "b3 = b" and o3: "occurrences E3 = occurrences E" by simp_all
      show ?thesis
      proof (cases "score_le (score_min beta eval) alpha")
        case True
        with "5.prems"(1) en ab Inr sm b2 lc u b3 o3 show ?thesis by auto
      next
        case False
        with "5.prems"(1) en ab Inr sm b2 lc u
        have ml: "min_loop L clk d ms E3 b3 alpha (score_min beta eval)
                (if score_less eval min_eval then eval else min_eval)
                (if score_less eval min_eval then Some m else best_move) = (r, E', b')"
          by simp
        have lc': "leave_child E2 b2 ?h = (r3, E3, b3)" using lc b2 by simp
        from "5.IH"(2) [OF en [symmetric] ab [symmetric] Inr sm [symmetric] refl
            lc' [symmetric] u refl False ml "5.prems"(2)]
        show ?thesis using b3 o3 by simp
      qed
    qed
  qed
qed

subsection \<open>The engine as its constructor makes it\<close>







section \<open>The claims\<close>

subsection \<open>C1: the opening move\<close>

text \<open>
  C1 says that \<^verbatim>\<open>get_best_move\<close> returns a legal move for the starting position with a
  depth ceiling of 3 and a generous time budget, and that it never raises. On the starting
  position, with depth 3, a budget of 1000 seconds and a clock that advances by a
  millisecond per reading, the call ends in the \<^verbatim>\<open>AttributeError\<close> that \<^verbatim>\<open>order_moves\<close>
  raises at line 65, which \<^verbatim>\<open>iterative_deepening\<close> does not catch. On no position and
  with no clock does the engine as constructed return a move
  (\<open>get_best_move_without_defense\<close>).
\<close>

theorem opening_move_raises:
  "fst (get_best_move start_rules steady_clock (ChessEngine 3 1000) (fresh_board start_position))
     = Inl AttributeError"
proof -
  have 1: "piece_defense (evaluator (ChessEngine 3 1000)) = None"
    by (simp add: ChessEngine_def ChessEvaluator_def)
  have 2: "1 \<le> depth (ChessEngine 3 1000)" by (simp add: ChessEngine_def)
  have 3: "\<not> time_limit (ChessEngine 3 1000)
             < steady_clock (Suc (reads (ChessEngine 3 1000))) - steady_clock (reads (ChessEngine 3 1000))"
    by (simp add: ChessEngine_def steady_clock_def)
  have 4: "\<not> time_limit (ChessEngine 3 1000)
             < steady_clock (Suc (Suc (reads (ChessEngine 3 1000)))) - steady_clock (reads (ChessEngine 3 1000))"
    by (simp add: ChessEngine_def steady_clock_def)
  from get_best_move_missing [where clk = steady_clock, OF 1 2 3 4 start_not_over start_legal]
  show ?thesis by auto
qed

subsection \<open>C2: the defence component of the ordering score\<close>

text \<open>
  C2 says that the ordering score of every legal move includes the piece-protection
  sub-score of the resulting position. \<^verbatim>\<open>order_moves\<close> asks the evaluator for
  \<^verbatim>\<open>_evaluate_piece_defense\<close>, which \<^verbatim>\<open>ChessEvaluator\<close> does not define (its method is
  \<^verbatim>\<open>_evaluate_piece_protection\<close>): with that evaluator the computation of the score of a
  move ends in \<^verbatim>\<open>AttributeError\<close> for every rules engine, engine state, board and move,
  and no score is produced. An evaluator that answers the lookup has its answer on the
  resulting position added to the other components (\<open>move_score_value\<close>).
\<close>

theorem move_score_raises:
  "fst (move_score L (E\<lparr>evaluator := ChessEvaluator\<rparr>) b m) = Inl AttributeError"
proof -
  have "piece_defense (evaluator (E\<lparr>evaluator := ChessEvaluator\<rparr>)) = None"
    by (simp add: ChessEvaluator_def)
  from move_score_missing [OF this] show ?thesis by (metis fst_conv)
qed

subsection \<open>C3: the counts after a search\<close>


subsection \<open>C4: the score of a checkmated side to move\<close>

text \<open>
  C4 says that \<^verbatim>\<open>evaluate\<close> returns minus infinity for every position in which the side
  to move is checkmated, whichever side that is. Line 122 returns
  \<^verbatim>\<open>float('-inf') if board.turn else float('inf')\<close>: in the position below the second
  side is to move and checkmated, and the result is plus infinity, while line 160 reports
  every other score from the side of the mover.
\<close>

theorem evaluate_mated_second_side:
  "is_checkmate mate_rules mated_position \<and> \<not> turn mated_position
   \<and> fst (evaluate mate_rules ChessEvaluator (fresh_board mated_position)) = PInf"
  by (simp add: evaluate_checkmate mate_rules_def table_rules_def fresh_board_def mated_position_def)

subsection \<open>C5: the dampening of a terminal node\<close>

text \<open>
  C5, as amended. At a node of \<^verbatim>\<open>alpha_beta\<close> with depth 0 or with the game over, entered
  before the deadline, the score returned is the raw evaluation multiplied by 0.8 exactly
  when the fingerprint of the position is a key of the history, whatever its count, and the
  magnitude of the raw evaluation exceeds 500; otherwise it is the raw evaluation. The
  move returned is none.
\<close>

theorem terminal_value:
  assumes "\<not> time_limit E < clk (reads E) - start_time E" and "d = 0 \<or> is_game_over L b"
  shows "fst (alpha_beta L clk d E b alpha beta mx)
           = Inr (dampened E b (fst (evaluate L (evaluator E) b)), None)"
  using terminal_node_value [of L "E\<lparr>reads := reads E + 1\<rparr>" b]
  by (simp add: alpha_beta_terminal [where clk = clk, OF assms] dampened_def)

text \<open>The theorem at the king-and-pawn position, at depth 0 with an empty history.\<close>

theorem terminal_value_witness:
  "\<not> time_limit (ChessEngine 3 1000) < frozen_clock (reads (ChessEngine 3 1000)) - start_time (ChessEngine 3 1000)
   \<and> fst (alpha_beta kpk_rules frozen_clock 0 (ChessEngine 3 1000) (fresh_board kpk_position) MInf PInf True)
       = Inr (dampened (ChessEngine 3 1000) (fresh_board kpk_position)
                (fst (evaluate kpk_rules (evaluator (ChessEngine 3 1000)) (fresh_board kpk_position))), None)"
proof -
  have h: "\<not> time_limit (ChessEngine 3 1000)
             < frozen_clock (reads (ChessEngine 3 1000)) - start_time (ChessEngine 3 1000)"
    by (simp add: ChessEngine_def frozen_clock_def)
  have z: "(0::nat) = 0 \<or> is_game_over kpk_rules (fresh_board kpk_position)" by simp
  show ?thesis using h terminal_value [where clk = frozen_clock, OF h z] by simp
qed

text \<open>
  The claim as stated tests for a non-zero count. Line 88 tests \<^verbatim>\<open>pos_hash in
  self.position_history\<close>: a key whose count is 0 dampens as well. The raw evaluation
  of the king-and-pawn position is 3325.3, and with its fingerprint a key of count 0 the
  node returns 2660.24.
\<close>

theorem zero_count_dampened:
  "occurrences zero_count_engine (pos_hash (fresh_board kpk_position)) = 0
   \<and> fst (evaluate kpk_rules (evaluator zero_count_engine) (fresh_board kpk_position))
       = Fin (33253 / 10)
   \<and> fst (alpha_beta kpk_rules frozen_clock 0 zero_count_engine (fresh_board kpk_position)
            MInf PInf True) = Inr (Fin (66506 / 25), None)"
  by code_simp

subsection \<open>C6: the score of a checking move\<close>

text \<open>
  C6 says that a checking move that does not mate scores +30, +50 more when the evaluation
  after the move exceeds 500 from the side of the mover, and -100 when a reply captures
  the checking piece. By \<open>check_score_value\<close> the code adds the 50 when \<^verbatim>\<open>evaluate\<close> of the
  position after the move exceeds 500, which is the score from the side of the opponent,
  then to move; and it subtracts 100 for every reply after which the destination square
  of the reply holds a piece equal to the piece that gave check, which a piece of the
  opponent never is (\<open>replies_never_capture_mover\<close>). Below, Bf8-g7 gives check, the king
  can take the bishop on g7, and the score is 30, not -70.
\<close>

theorem taken_checker_not_penalised:
  "is_check bishop_rules bishop_check
   \<and> \<not> is_checkmate bishop_rules bishop_check
   \<and> mv 63 54 \<in> set (legal_moves bishop_rules bishop_check)
   \<and> fst (check_score bishop_rules (ChessEngine 3 1000) (fresh_board bishop_position) (mv 61 54))
       = Inr 30"
  by code_simp

subsection \<open>C7: the position after a call\<close>

text \<open>
  C7 says that every exit of \<^verbatim>\<open>alpha_beta\<close> and of \<^verbatim>\<open>order_moves\<close>, an exit by an error
  included, leaves the position as it was on entry. An exit by \<^verbatim>\<open>return\<close> or by the
  cancellation does (\<open>search_exits\<close>, \<open>order_moves_exit\<close>). The \<^verbatim>\<open>AttributeError\<close> of line
  65 is raised between the \<^verbatim>\<open>push\<close> of line 64 and the \<^verbatim>\<open>pop\<close> of line 67, and nothing
  undoes the move on the way out: \<^verbatim>\<open>order_moves\<close> on the starting position with its
  twenty moves leaves the board with Ng1-h3 played, a knight on h3 where there was none.
\<close>

theorem order_moves_leaves_move_applied:
  "snd (snd (order_moves start_rules (ChessEngine 3 1000) (fresh_board start_position) start_moves))
     = \<lparr>cur = quiet_move start_position (mv 6 23), stack = [start_position]\<rparr>
   \<and> piece_at start_position 23 = None
   \<and> piece_at (quiet_move start_position (mv 6 23)) 23 = Some (Piece KNIGHT True)"
proof -
  have 1: "piece_defense (evaluator (ChessEngine 3 1000)) = None"
    by (simp add: ChessEngine_def ChessEvaluator_def)
  have 2: "capture_score (cur (fresh_board start_position)) (mv 6 23) \<noteq> Inl AttributeError"
    by (simp add: start_no_capture)
  from order_moves_missing [OF 1, of start_rules "fresh_board start_position" "mv 6 23" "tl start_moves"] 2
  have "snd (snd (order_moves start_rules (ChessEngine 3 1000) (fresh_board start_position)
                    (mv 6 23 # tl start_moves)))
          = push start_rules (fresh_board start_position) (mv 6 23)"
    by auto
  moreover have "push start_rules (fresh_board start_position) (mv 6 23)
                   = \<lparr>cur = quiet_move start_position (mv 6 23), stack = [start_position]\<rparr>"
    by (simp add: push_def start_rules_def table_rules_def fresh_board_def)
  moreover have "piece_at start_position 23 = None" by code_simp
  moreover have "piece_at (quiet_move start_position (mv 6 23)) 23 = Some (Piece KNIGHT True)"
    by code_simp
  ultimately show ?thesis using start_moves_first by simp
qed

subsection \<open>C8: a depth ceiling or time budget that is not positive\<close>

text \<open>
  C8, as amended. If the depth ceiling is not positive, or the time budget is negative and
  the clock does not run backwards between its first two readings, or the time budget is
  not positive and the clock advances between its first two readings, then
  \<^verbatim>\<open>get_best_move\<close> returns no move without searching: the board is untouched and the
  history is empty.
\<close>

theorem no_budget_no_move:
  assumes "depth E \<le> 0
           \<or> time_limit E < 0 \<and> clk (reads E) \<le> clk (Suc (reads E))
           \<or> time_limit E \<le> 0 \<and> clk (reads E) < clk (Suc (reads E))"
  shows "fst (get_best_move L clk E b) = Inr None
         \<and> snd (snd (get_best_move L clk E b)) = b
         \<and> position_history (fst (snd (get_best_move L clk E b))) = Map.empty"
proof -
  define E1 where
    "E1 = E\<lparr>reads := reads E + 1, start_time := clk (reads E), position_history := Map.empty\<rparr>"
  have g: "get_best_move L clk E b =
      (case deepening_loop L clk (depth E) 1 E1 b None of
         (Inl e, E2, b2) \<Rightarrow> (Inl e, E2, b2)
       | (Inr best_move, E2, b2) \<Rightarrow> (Inr best_move, E2\<lparr>reads := reads E2 + 1\<rparr>, b2))"
    by (simp add: get_best_move_def iterative_deepening_def time_def E1_def split: prod.splits sum.splits)
  show ?thesis
  proof (cases "depth E \<le> 0")
    case True
    then have "deepening_loop L clk (depth E) 1 E1 b None = (Inr None, E1, b)"
      by (intro deepening_loop_beyond) simp
    then show ?thesis by (simp add: g E1_def)
  next
    case False
    with assms have "time_limit E < clk (Suc (reads E)) - clk (reads E)" by auto
    then have "time_limit E1 < clk (reads E1) - start_time E1" by (simp add: E1_def)
    from deepening_loop_late [where clk = clk, OF this, of L "depth E" 1 b None]
    show ?thesis by (simp add: g E1_def)
  qed
qed

text \<open>The theorem on the starting position: with depth ceiling 0, and with a budget of 0
  seconds on a clock that advances by a millisecond per reading.\<close>

theorem no_budget_no_move_witness:
  "depth (ChessEngine 0 1000) \<le> 0
   \<and> fst (get_best_move start_rules steady_clock (ChessEngine 0 1000) (fresh_board start_position)) = Inr None
   \<and> time_limit (ChessEngine 3 0) \<le> 0 \<and> steady_clock (reads (ChessEngine 3 0)) < steady_clock (Suc (reads (ChessEngine 3 0)))
   \<and> fst (get_best_move start_rules steady_clock (ChessEngine 3 0) (fresh_board start_position)) = Inr None"
proof -
  have a: "depth (ChessEngine 0 1000) \<le> 0" by (simp add: ChessEngine_def)
  have b: "time_limit (ChessEngine 3 0) \<le> 0 \<and> steady_clock (reads (ChessEngine 3 0)) < steady_clock (Suc (reads (ChessEngine 3 0)))"
    by (simp add: ChessEngine_def steady_clock_def)
  show ?thesis
    using a b no_budget_no_move [of "ChessEngine 0 1000" steady_clock start_rules "fresh_board start_position"]
      no_budget_no_move [of "ChessEngine 3 0" steady_clock start_rules "fresh_board start_position"]
    by simp
qed

text \<open>
  The claim as stated covers a budget of 0 on any clock. \<^verbatim>\<open>is_time_up\<close> tests
  \<^verbatim>\<open>time.time() - self.start_time > self.time_limit\<close>, which is false as long as the clock
  returns the value it returned at the start: with a budget of 0 and such a clock the
  search of the king-and-pawn position is entered, and the call ends in the error of
  line 65 instead of returning no move.
\<close>

theorem zero_budget_searches:
  "time_limit (ChessEngine 1 0) \<le> 0
   \<and> fst (get_best_move kpk_rules frozen_clock (ChessEngine 1 0) (fresh_board kpk_position))
       = Inl AttributeError"
  by code_simp

subsection \<open>C9: the evaluator is a function of the position\<close>

text \<open>
  C9. \<^verbatim>\<open>evaluate\<close> is observationally a pure function of the position. The score does
  not depend on the state of the evaluator object (whatever king table an earlier call
  assigned) nor on the undo stack of the board: two calls on equal positions return equal
  scores, also when any list of boards has been evaluated between them; and the board is
  the same after the call as before, the side to move that \<^verbatim>\<open>_evaluate_mobility\<close>
  assigns being restored.
\<close>

theorem evaluate_pure:
  "fst (evaluate L ev \<lparr>cur = p, stack = s\<rparr>) = fst (evaluate L ev' \<lparr>cur = p, stack = s'\<rparr>)
   \<and> fst (evaluate L (evaluate_many L ev bs) \<lparr>cur = p, stack = s'\<rparr>)
       = fst (evaluate L ev \<lparr>cur = p, stack = s\<rparr>)
   \<and> snd (snd (evaluate L ev \<lparr>cur = p, stack = s\<rparr>)) = \<lparr>cur = p, stack = s\<rparr>"
  using evaluate_score_of_position [of "\<lparr>cur = p, stack = s\<rparr>" "\<lparr>cur = p, stack = s'\<rparr>" L ev ev']
    evaluate_score_of_position [of "\<lparr>cur = p, stack = s'\<rparr>" "\<lparr>cur = p, stack = s\<rparr>" L
      "evaluate_many L ev bs" ev]
  by (simp add: evaluate_board)

subsection \<open>C10: the search on a position with the sides swapped\<close>

text \<open>
  C10, as amended. For a position that is a stalemate or a draw by insufficient material,
  as is the position with the sides swapped, and a depth at which both nodes are terminal
  (depth 0, or the game over in both), \<^verbatim>\<open>alpha_beta\<close> entered before the deadline with
  the full window returns 0 as maximizing node on the one and 0 as minimizing node on the
  other: the two scores are negatives of each other.
\<close>

theorem drawn_swapped_sides_opposite:
  assumes "\<not> time_limit E < clk (reads E) - start_time E"
    and "d = 0 \<or> is_game_over L b \<and> is_game_over L (swap_board b)"
    and "drawn L (cur b)" and "drawn L (cur (swap_board b))"
  shows "fst (alpha_beta L clk d E b MInf PInf True) = Inr (Fin 0, None)
         \<and> fst (alpha_beta L clk d E (swap_board b) MInf PInf False) = Inr (Fin 0, None)
         \<and> Fin 0 = score_neg (Fin 0)"
proof -
  have 1: "d = 0 \<or> is_game_over L b" and 2: "d = 0 \<or> is_game_over L (swap_board b)"
    using assms(2) by auto
  have "fst (alpha_beta L clk d E b MInf PInf True) = Inr (Fin 0, None)"
    using terminal_node_value [of L "E\<lparr>reads := reads E + 1\<rparr>" b] evaluate_drawn [OF assms(3)]
    by (simp add: alpha_beta_terminal [where clk = clk, OF assms(1) 1] dampened_def)
  moreover have "fst (alpha_beta L clk d E (swap_board b) MInf PInf False) = Inr (Fin 0, None)"
    using terminal_node_value [of L "E\<lparr>reads := reads E + 1\<rparr>" "swap_board b"]
      evaluate_drawn [OF assms(4)]
    by (simp add: alpha_beta_terminal [where clk = clk, OF assms(1) 2] dampened_def)
  ultimately show ?thesis by simp
qed

text \<open>The theorem on the bare kings, at depth 3.\<close>

theorem drawn_swapped_sides_opposite_witness:
  "\<not> time_limit (ChessEngine 3 1000) < steady_clock (reads (ChessEngine 3 1000)) - start_time (ChessEngine 3 1000)
   \<and> is_game_over kings_rules (fresh_board kings_position)
   \<and> is_game_over kings_rules (swap_board (fresh_board kings_position))
   \<and> drawn kings_rules (cur (fresh_board kings_position))
   \<and> drawn kings_rules (cur (swap_board (fresh_board kings_position)))
   \<and> fst (alpha_beta kings_rules steady_clock 3 (ChessEngine 3 1000) (fresh_board kings_position) MInf PInf True)
       = Inr (Fin 0, None)
   \<and> fst (alpha_beta kings_rules steady_clock 3 (ChessEngine 3 1000) (swap_board (fresh_board kings_position)) MInf PInf False)
       = Inr (Fin 0, None)"
proof -
  have t: "\<not> time_limit (ChessEngine 3 1000) < steady_clock (reads (ChessEngine 3 1000)) - start_time (ChessEngine 3 1000)"
    by (simp add: ChessEngine_def steady_clock_def)
  have g: "(3::nat) = 0 \<or> is_game_over kings_rules (fresh_board kings_position)
               \<and> is_game_over kings_rules (swap_board (fresh_board kings_position))"
    by (simp add: kings_rules_def table_rules_def)
  have d1: "drawn kings_rules (cur (fresh_board kings_position))"
    and d2: "drawn kings_rules (cur (swap_board (fresh_board kings_position)))"
    by (simp_all add: drawn_def kings_rules_def table_rules_def never_def)
  show ?thesis
    using t g d1 d2 drawn_swapped_sides_opposite [where clk = steady_clock, OF t g d1 d2] by simp
qed

text \<open>
  The claim as stated covers every position. A terminal node returns \<^verbatim>\<open>evaluate\<close> of its
  position whatever its \<^verbatim>\<open>maximizing_player\<close> flag, and line 160 reports that score from
  the side of the mover: at depth 0, with an empty history, the king-and-pawn position
  scores 3325.3 as maximizing node and the position with the sides swapped scores 3325.3
  as minimizing node, not -3325.3.
\<close>

theorem swapped_sides_same_score:
  "fst (alpha_beta kpk_rules frozen_clock 0 (ChessEngine 3 1000) (fresh_board kpk_position)
          MInf PInf True) = Inr (Fin (33253 / 10), None)
   \<and> fst (alpha_beta kpk_rules frozen_clock 0 (ChessEngine 3 1000)
            (swap_board (fresh_board kpk_position)) MInf PInf False) = Inr (Fin (33253 / 10), None)"
  by code_simp

end
